theory Spec2Isabelle
  imports Main
begin

section \<open>URL patterns: \<open>proto.PatternToReg\<close>\<close>

text \<open>
  A Go string is modelled by its sequence of code points; \<^typ>\<open>char\<close> covers
  U+0000 to U+00FF. The regular expressions \<open>([^\\])\*\<close> and \<open>([^\\])\?\<close> match one
  code point other than the backslash followed by the wildcard, and
  \<open>ReplaceAllString\<close> rewrites the leftmost non-overlapping matches from left to
  right, the template \<open>$1.*\<close> (or \<open>$1.\<close>) keeping the first code point.
\<close>

definition backslash :: char where
  "backslash = CHR 0x5C"

fun ReplaceAllString :: "char \<Rightarrow> string \<Rightarrow> string \<Rightarrow> string" where
  "ReplaceAllString w rep (c # d # rest) =
     (if c \<noteq> backslash \<and> d = w then c # rep @ ReplaceAllString w rep rest
      else c # ReplaceAllString w rep (d # rest))"
| "ReplaceAllString w rep s = s"

text \<open>
  \<open>unicode.IsSpace\<close> on the code points below U+0100: tab, line feed, vertical tab,
  form feed, carriage return, space, U+0085 and U+00A0.
\<close>

definition IsSpace :: "char \<Rightarrow> bool" where
  "IsSpace c \<longleftrightarrow> c \<in> {CHR 0x09, CHR 0x0A, CHR 0x0B, CHR 0x0C, CHR 0x0D, CHR 0x20,
                     CHR 0x85, CHR 0xA0}"

definition TrimSpace :: "string \<Rightarrow> string" where
  "TrimSpace s = rev (dropWhile IsSpace (rev (dropWhile IsSpace s)))"

definition PatternToReg :: "string \<Rightarrow> string" where
  "PatternToReg pattern =
     (if pattern = [] then []
      else let p0 = CHR '' '' # pattern;
               p1 = ReplaceAllString (CHR ''*'') ''.*'' p0;
               p2 = ReplaceAllString (CHR ''?'') ''.'' p1
           in [backslash, CHR ''A''] @ TrimSpace p2 @ [backslash, CHR ''z''])"

subsection \<open>The fragment of Go's \<open>regexp\<close> that compiled patterns use\<close>

text \<open>
  \<open>regexp.MustCompile\<close> and \<open>Regexp.MatchString\<close> belong to the Go standard
  library. The model covers the syntax that \<open>PatternToReg\<close> emits for glob patterns:
  the anchors \<open>\A\<close> and \<open>\z\<close>, the dot (any code point but line feed, no flag
  being set), a backslash before a metacharacter, every other code point standing for
  itself, and one of the operators \<open>*\<close>, \<open>+\<close>, \<open>?\<close> after such an atom.
  \<open>Compile\<close> answers \<open>None\<close> on everything else: the expressions Go rejects
  (a doubled repetition operator, an operator with nothing before it, an unbalanced
  bracket), on which \<open>MustCompile\<close> panics, and the syntax left out of the fragment
  (groups, classes, alternation, the other escapes, lazy operators).
\<close>

datatype atom = Lit char | AnyCharNotNL

datatype token = TBeginText | TEndText | TAtom atom | TOp char

datatype item = BeginText | EndText | One atom | Star atom | Plus atom | Quest atom

definition metachars :: "char set" where
  "metachars = {backslash, CHR ''.'', CHR ''+'', CHR ''*'', CHR ''?'', CHR ''('', CHR '')'',
                CHR ''|'', CHR ''['', CHR '']'', CHR ''{'', CHR ''}'', CHR ''^'', CHR ''$''}"

definition isOp :: "char \<Rightarrow> bool" where
  "isOp c \<longleftrightarrow> c = CHR ''*'' \<or> c = CHR ''+'' \<or> c = CHR ''?''"

fun tokens :: "string \<Rightarrow> token list option" where
  "tokens [] = Some []"
| "tokens (c # r) =
     (if c = backslash then
        (case r of
           [] \<Rightarrow> None
         | e # r' \<Rightarrow>
             if e = CHR ''A'' then map_option ((#) TBeginText) (tokens r')
             else if e = CHR ''z'' then map_option ((#) TEndText) (tokens r')
             else if e \<in> metachars then map_option ((#) (TAtom (Lit e))) (tokens r')
             else None)
      else if c = CHR ''.'' then map_option ((#) (TAtom AnyCharNotNL)) (tokens r)
      else if isOp c then map_option ((#) (TOp c)) (tokens r)
      else if c \<in> metachars then None
      else map_option ((#) (TAtom (Lit c))) (tokens r))"

definition repeat :: "char \<Rightarrow> atom \<Rightarrow> item" where
  "repeat q a = (if q = CHR ''*'' then Star a else if q = CHR ''+'' then Plus a else Quest a)"

fun build :: "token list \<Rightarrow> item list option" where
  "build [] = Some []"
| "build (TAtom a # TOp q # TOp q' # ts) = None"
| "build (TAtom a # TOp q # ts) = map_option ((#) (repeat q a)) (build ts)"
| "build (TAtom a # ts) = map_option ((#) (One a)) (build ts)"
| "build (TOp q # ts) = None"
| "build (TBeginText # TOp q # ts) = None"
| "build (TBeginText # ts) = map_option ((#) BeginText) (build ts)"
| "build (TEndText # TOp q # ts) = None"
| "build (TEndText # ts) = map_option ((#) EndText) (build ts)"

definition Compile :: "string \<Rightarrow> item list option" where
  "Compile expr = (case tokens expr of None \<Rightarrow> None | Some ts \<Rightarrow> build ts)"

definition atomMatches :: "atom \<Rightarrow> char \<Rightarrow> bool" where
  "atomMatches a c = (case a of Lit l \<Rightarrow> c = l | AnyCharNotNL \<Rightarrow> c \<noteq> CHR 0x0A)"

text \<open>
  \<open>matchHere re atStart s\<close>: some prefix of \<open>s\<close> matches \<open>re\<close>, where
  \<open>atStart\<close> tells whether \<open>s\<close> is the whole text. \<open>MatchString\<close> reports
  whether any part of the text matches.
\<close>

fun matchHere :: "item list \<Rightarrow> bool \<Rightarrow> string \<Rightarrow> bool" where
  "matchHere [] atStart s = True"
| "matchHere (BeginText # re) atStart s = (atStart \<and> matchHere re atStart s)"
| "matchHere (EndText # re) atStart s = (s = [] \<and> matchHere re atStart s)"
| "matchHere (One a # re) atStart [] = False"
| "matchHere (One a # re) atStart (c # cs) = (atomMatches a c \<and> matchHere re False cs)"
| "matchHere (Quest a # re) atStart [] = matchHere re atStart []"
| "matchHere (Quest a # re) atStart (c # cs) =
     (matchHere re atStart (c # cs) \<or> (atomMatches a c \<and> matchHere re False cs))"
| "matchHere (Star a # re) atStart [] = matchHere re atStart []"
| "matchHere (Star a # re) atStart (c # cs) =
     (matchHere re atStart (c # cs) \<or> (atomMatches a c \<and> matchHere (Star a # re) False cs))"
| "matchHere (Plus a # re) atStart [] = False"
| "matchHere (Plus a # re) atStart (c # cs) =
     (atomMatches a c \<and> matchHere (Star a # re) False cs)"

fun search :: "item list \<Rightarrow> bool \<Rightarrow> string \<Rightarrow> bool" where
  "search re atStart [] = matchHere re atStart []"
| "search re atStart (c # cs) = (matchHere re atStart (c # cs) \<or> search re False cs)"

definition MatchString :: "item list \<Rightarrow> string \<Rightarrow> bool" where
  "MatchString re s = search re True s"












section \<open>Requests, calls, pages and the browser\<close>

text \<open>
  A protocol request is its method name (\<open>ProtoReq()\<close>) and the values of its
  fields; the parameters of a call are a request or \<open>nil\<close>. The remote end is a
  parameter: \<open>client\<close> answers a call, given the calls made before it, with an error or
  with the raw result. The browser records the calls it has issued.
\<close>

record RuntimeRemoteObject =
  ObjectID :: string
  Description :: string

text \<open>
  \<open>ErrCtxNotFound\<close> is the error that \<open>errors.Is(err, cdp.ErrCtxNotFound)\<close>
  recognises; \<open>ErrRemote\<close> is any other failure of a call.
\<close>

datatype error =
    ErrCtxNotFound
  | ErrRemote string
  | ErrObjectNotFound RuntimeRemoteObject
  | ErrEval string

datatype 'a outcome = Returns 'a | Panics

record request =
  ProtoReq :: string
  reqFields :: string

type_synonym params = "request option"

record stateKey =
  browserContextID :: string
  sessionID :: string
  methodName :: string

record call =
  callSessionID :: string
  callMethod :: string
  callParams :: params

type_synonym client = "call list \<Rightarrow> call \<Rightarrow> error + string"

datatype RuntimeCallArgument = ArgObjectID string | ArgValue string

record RuntimeCallFunctionOn =
  cfAwaitPromise :: bool
  cfReturnByValue :: bool
  cfUserGesture :: bool
  cfFunctionDeclaration :: string
  cfArguments :: "RuntimeCallArgument list"
  cfObjectID :: string

datatype pageCall =
    RuntimeEvaluateCall string
  | DOMDescribeNodeCall string int bool
  | DOMResolveNodeCall nat
  | RuntimeCallFunctionOnCall RuntimeCallFunctionOn

datatype event = Called pageCall | Slept nat

text \<open>
  A page: \<open>element\<close> is the object id of the embedding element of an iframe
  (\<open>None\<close> for \<open>nil\<close>), \<open>jsCtxID\<close> the cell that \<open>*p.jsCtxID\<close> reads, \<open>helpers\<close>
  the map of maps (\<open>None\<close> for the \<open>nil\<close> map), \<open>trace\<close> the calls the page has
  issued and the sleeps it has taken.
\<close>

record Page =
  TargetID :: string
  SessionID :: string
  FrameID :: string
  element :: "string option"
  jsCtxID :: string
  helpers :: "(string \<rightharpoonup> (string \<rightharpoonup> string)) option"
  trace :: "event list"

text \<open>
  \<open>Browser.states\<close> is one \<open>sync.Map\<close> holding two kinds of keys, \<open>stateKey\<close>
  structs and target ids, which never compare equal: \<open>states\<close> and \<open>cachedPages\<close>.
  A cached \<open>*Page\<close> is the index of the page in \<open>allocated\<close>.
\<close>

record Browser =
  BrowserContextID :: string
  defaultDeviceIsClear :: bool
  states :: "stateKey \<rightharpoonup> params"
  cachedPages :: "string \<rightharpoonup> nat"
  allocated :: "Page list"
  calls :: "call list"

section \<open>The domain state cache of \<open>Browser\<close>\<close>

definition key :: "Browser \<Rightarrow> string \<Rightarrow> string \<Rightarrow> stateKey" where
  "key b sid m = \<lparr>browserContextID = BrowserContextID b, sessionID = sid, methodName = m\<rparr>"

text \<open>\<open>strings.Split\<close> with a separator of one character.\<close>

fun Split :: "char \<Rightarrow> string \<Rightarrow> string list" where
  "Split sep [] = [[]]"
| "Split sep (c # cs) =
     (if c = sep then [] # Split sep cs
      else (case Split sep cs of [] \<Rightarrow> [[c]] | x # xs \<Rightarrow> (c # x) # xs))"

text \<open>\<open>arr[1]\<close> is out of range when the method name has no dot: \<open>None\<close> is that panic.\<close>

definition ParseMethodName :: "string \<Rightarrow> (string \<times> string) option" where
  "ParseMethodName method =
     (case Split (CHR ''.'') method of d # n # _ \<Rightarrow> Some (d, n) | _ \<Rightarrow> None)"

text \<open>
  The generated package \<open>proto\<close> is not among the sources; the four method names are
  those of the protocol.
\<close>

definition EmulationClearDeviceMetricsOverride :: string where
  "EmulationClearDeviceMetricsOverride = ''Emulation.clearDeviceMetricsOverride''"

definition EmulationSetDeviceMetricsOverride :: string where
  "EmulationSetDeviceMetricsOverride = ''Emulation.setDeviceMetricsOverride''"

definition EmulationClearGeolocationOverride :: string where
  "EmulationClearGeolocationOverride = ''Emulation.clearGeolocationOverride''"

definition EmulationSetGeolocationOverride :: string where
  "EmulationSetGeolocationOverride = ''Emulation.setGeolocationOverride''"

definition Delete :: "Browser \<Rightarrow> stateKey \<Rightarrow> Browser" where
  "Delete b k = b\<lparr>states := (states b)(k := None)\<rparr>"

definition set_state :: "Browser \<Rightarrow> string \<Rightarrow> string \<Rightarrow> params \<Rightarrow> unit outcome \<times> Browser" where
  "set_state b sid m ps =
     (let b1 = b\<lparr>states := (states b)(key b sid m \<mapsto> ps)\<rparr>;
          finish = (\<lambda>k. (Returns (), if k \<noteq> [] then Delete b1 (key b1 sid k) else b1))
      in if m = EmulationClearDeviceMetricsOverride then finish EmulationSetDeviceMetricsOverride
         else if m = EmulationClearGeolocationOverride then finish EmulationSetGeolocationOverride
         else (case ParseMethodName m of
                 None \<Rightarrow> (Panics, b1)
               | Some (domain, name) \<Rightarrow>
                   finish (if name = ''disable'' then domain @ ''.enable'' else [])))"

definition Call :: "client \<Rightarrow> Browser \<Rightarrow> string \<Rightarrow> string \<Rightarrow> params \<Rightarrow> (error + string) outcome \<times> Browser" where
  "Call cl b sid m ps =
     (let c = \<lparr>callSessionID = sid, callMethod = m, callParams = ps\<rparr>;
          b1 = b\<lparr>calls := calls b @ [c]\<rparr>
      in case cl (calls b) c of
           Inl err \<Rightarrow> (Returns (Inl err), b1)
         | Inr res \<Rightarrow>
             (case set_state b1 sid m ps of
                (Panics, b2) \<Rightarrow> (Panics, b2)
              | (Returns _, b2) \<Rightarrow> (Returns (Inr res), b2)))"

text \<open>
  The restore closures capture \<open>enabled\<close>, the session and the request, and act on the
  browser as it is when they run.
\<close>

type_synonym restore = "Browser \<Rightarrow> unit outcome \<times> Browser"

definition discard :: "'a outcome \<times> Browser \<Rightarrow> unit outcome \<times> Browser" where
  "discard r = (case r of (Panics, b) \<Rightarrow> (Panics, b) | (Returns _, b) \<Rightarrow> (Returns (), b))"

definition EnableDomain :: "client \<Rightarrow> Browser \<Rightarrow> string \<Rightarrow> request \<Rightarrow> restore outcome \<times> Browser" where
  "EnableDomain cl b sid req =
     (let enabled = (states b (key b sid (ProtoReq req)) \<noteq> None);
          restore = (\<lambda>b'. if \<not> enabled then
                        (case ParseMethodName (ProtoReq req) of
                           None \<Rightarrow> (Panics, b')
                         | Some (domain, _) \<Rightarrow> discard (Call cl b' sid (domain @ ''.disable'') None))
                      else (Returns (), b'))
      in case (if \<not> enabled then discard (Call cl b sid (ProtoReq req) (Some req))
               else (Returns (), b)) of
           (Panics, b1) \<Rightarrow> (Panics, b1)
         | (Returns _, b1) \<Rightarrow> (Returns restore, b1))"

definition DisableDomain :: "client \<Rightarrow> Browser \<Rightarrow> string \<Rightarrow> request \<Rightarrow> restore outcome \<times> Browser" where
  "DisableDomain cl b sid req =
     (let enabled = (states b (key b sid (ProtoReq req)) \<noteq> None);
          restore = (\<lambda>b'. if enabled then discard (Call cl b' sid (ProtoReq req) (Some req))
                      else (Returns (), b'))
      in case ParseMethodName (ProtoReq req) of
           None \<Rightarrow> (Panics, b)
         | Some (domain, _) \<Rightarrow>
             (case (if enabled then discard (Call cl b sid (domain @ ''.disable'') None)
                    else (Returns (), b)) of
                (Panics, b1) \<Rightarrow> (Panics, b1)
              | (Returns _, b1) \<Rightarrow> (Returns restore, b1)))"


section \<open>The page registry: \<open>Browser.PageFromTarget\<close>\<close>

definition cachePage :: "Browser \<Rightarrow> nat \<Rightarrow> Page \<Rightarrow> Browser" where
  "cachePage b addr page = b\<lparr>cachedPages := (cachedPages b)(TargetID page \<mapsto> addr)\<rparr>"

definition loadCachedPage :: "Browser \<Rightarrow> string \<Rightarrow> nat option" where
  "loadCachedPage b targetID = cachedPages b targetID"

definition TargetAttachToTarget :: "string \<Rightarrow> request" where
  "TargetAttachToTarget targetID = \<lparr>ProtoReq = ''Target.attachToTarget'', reqFields = targetID\<rparr>"

definition PageEnable :: request where
  "PageEnable = \<lparr>ProtoReq = ''Page.enable'', reqFields = []\<rparr>"

text \<open>
  \<open>Page.Emulate\<close> and the decoding of the attach result are not among the sources
  and are parameters: \<open>emulate\<close> acts on the browser in any way and may fail,
  \<open>unmarshal\<close> reads the session id out of the raw result or fails.
  \<open>Page.initEvents\<close> starts the forwarding of events and issues no call. The
  browser is its own client without a session, so the attach call carries the empty
  session id.
\<close>

definition PageFromTarget ::
  "client \<Rightarrow> (string \<Rightarrow> error + string) \<Rightarrow> (nat \<Rightarrow> Browser \<Rightarrow> error option \<times> Browser) \<Rightarrow>
   Browser \<Rightarrow> string \<Rightarrow> (error + nat) outcome \<times> Browser" where
  "PageFromTarget cl unmarshal emulate b targetID =
     (case loadCachedPage b targetID of
        Some page \<Rightarrow> (Returns (Inr page), b)
      | None \<Rightarrow>
          (case Call cl b [] ''Target.attachToTarget'' (Some (TargetAttachToTarget targetID)) of
             (Panics, b1) \<Rightarrow> (Panics, b1)
           | (Returns (Inl err), b1) \<Rightarrow> (Returns (Inl err), b1)
           | (Returns (Inr bin), b1) \<Rightarrow>
               (case unmarshal bin of
                  Inl err \<Rightarrow> (Returns (Inl err), b1)
                | Inr session \<Rightarrow>
                    (let page = \<lparr>TargetID = targetID, SessionID = session, FrameID = targetID,
                                 element = None, jsCtxID = [], helpers = None, trace = []\<rparr>;
                         addr = length (allocated b1);
                         b2 = b1\<lparr>allocated := allocated b1 @ [page]\<rparr>
                     in case (if \<not> defaultDeviceIsClear b2 then emulate addr b2 else (None, b2)) of
                          (Some err, b3) \<Rightarrow> (Returns (Inl err), b3)
                        | (None, b3) \<Rightarrow>
                            (case EnableDomain cl (cachePage b3 addr page) session PageEnable of
                               (Panics, b4) \<Rightarrow> (Panics, b4)
                             | (Returns _, b4) \<Rightarrow> (Returns (Inr addr), b4))))))"

section \<open>The hijack router\<close>

record FetchRequestPaused =
  pausedRequestID :: string
  pausedURL :: string

record FetchContinueRequest =
  continueRequestID :: string
  continueFields :: string

record FetchFulfillRequest =
  fulfillRequestID :: string
  ResponseCode :: int
  ResponseHeaders :: "(string \<times> string) list"
  Body :: string

record FetchFailRequest =
  failRequestID :: string
  ErrorReason :: string

text \<open>
  The interception context. \<open>OnError\<close> is a callback of the context; calling it is
  the event \<open>OnError\<close> of the trace below.
\<close>

record Hijack =
  Request :: FetchRequestPaused
  payload :: FetchFulfillRequest
  failReq :: FetchFailRequest
  Skip :: bool
  continueRequest :: "FetchContinueRequest option"
  CustomState :: string

datatype fetchCall =
    FetchContinueRequestCall FetchContinueRequest
  | FetchFailRequestCall FetchFailRequest
  | FetchFulfillRequestCall FetchFulfillRequest
  | FetchEnableCall "(string \<times> string) list"

datatype hijackEvent = Invoked string | Sent fetchCall | OnError error

type_synonym fetchClient = "hijackEvent list \<Rightarrow> fetchCall \<Rightarrow> error option"

record hijackHandler =
  pattern :: string
  regexp :: "item list"
  handler :: "Hijack \<Rightarrow> Hijack"

record HijackRouter =
  handlers :: "hijackHandler list"
  enablePatterns :: "(string \<times> string) list"

definition newHijackRouter :: HijackRouter where
  "newHijackRouter = \<lparr>handlers = [], enablePatterns = []\<rparr>"

definition new_hijack :: "FetchRequestPaused \<Rightarrow> Hijack" where
  "new_hijack e =
     \<lparr>Request = e,
      payload = \<lparr>fulfillRequestID = pausedRequestID e, ResponseCode = 200,
                 ResponseHeaders = [], Body = []\<rparr>,
      failReq = \<lparr>failRequestID = pausedRequestID e, ErrorReason = []\<rparr>,
      Skip = False, continueRequest = None, CustomState = []\<rparr>"

text \<open>
  The body of the goroutine that \<open>initEvents\<close> starts for a paused request: the loop
  over \<open>r.handlers\<close>. The result tells whether the goroutine left the loop by a
  \<open>return\<close> (\<open>True\<close>) or ran through all the handlers (\<open>False\<close>), and gives
  the context and the trace of what was done: the handlers invoked, the calls sent, the
  errors handed to \<open>OnError\<close>.
\<close>

fun walkHandlers ::
  "fetchClient \<Rightarrow> FetchRequestPaused \<Rightarrow> hijackHandler list \<Rightarrow> Hijack \<Rightarrow> hijackEvent list \<Rightarrow>
   bool \<times> Hijack \<times> hijackEvent list" where
  "walkHandlers cl e [] ctx tr = (False, ctx, tr)"
| "walkHandlers cl e (h # hs) ctx tr =
     (if \<not> MatchString (regexp h) (pausedURL e) then walkHandlers cl e hs ctx tr
      else
        (let ctx1 = handler h ctx; tr1 = tr @ [Invoked (pattern h)]
         in case continueRequest ctx1 of
              Some cq \<Rightarrow>
                (let cq1 = cq\<lparr>continueRequestID := pausedRequestID e\<rparr>;
                     ctx2 = ctx1\<lparr>continueRequest := Some cq1\<rparr>;
                     c = FetchContinueRequestCall cq1
                 in case cl tr1 c of
                      Some err \<Rightarrow> (True, ctx2, tr1 @ [Sent c, OnError err])
                    | None \<Rightarrow> (True, ctx2, tr1 @ [Sent c]))
            | None \<Rightarrow>
                if Skip ctx1 then walkHandlers cl e hs ctx1 tr1
                else if ErrorReason (failReq ctx1) \<noteq> [] then
                  (let c = FetchFailRequestCall (failReq ctx1)
                   in case cl tr1 c of
                        Some err \<Rightarrow> (True, ctx1, tr1 @ [Sent c, OnError err])
                      | None \<Rightarrow> (True, ctx1, tr1 @ [Sent c]))
                else
                  (let c = FetchFulfillRequestCall (payload ctx1)
                   in case cl tr1 c of
                        Some err \<Rightarrow> (True, ctx1, tr1 @ [Sent c, OnError err])
                      | None \<Rightarrow> walkHandlers cl e hs ctx1 (tr1 @ [Sent c]))))"

definition requestPaused :: "fetchClient \<Rightarrow> HijackRouter \<Rightarrow> FetchRequestPaused \<Rightarrow> hijackEvent list" where
  "requestPaused cl r e = snd (snd (walkHandlers cl e (handlers r) (new_hijack e) []))"

text \<open>
  \<open>HijackRouter.Add\<close>. \<open>None\<close> is the panic of \<open>regexp.MustCompile\<close>, or a
  pattern whose expression lies outside the modelled fragment. Otherwise the result
  is the error of the \<open>Fetch.enable\<close> call and the router.
\<close>

definition Add ::
  "fetchClient \<Rightarrow> HijackRouter \<Rightarrow> string \<Rightarrow> string \<Rightarrow> (Hijack \<Rightarrow> Hijack) \<Rightarrow>
   (error option \<times> HijackRouter) option" where
  "Add cl r pat resourceType h =
     (let ps = enablePatterns r @ [(pat, resourceType)]
      in case Compile (PatternToReg pat) of
           None \<Rightarrow> None
         | Some reg \<Rightarrow>
             Some (cl [] (FetchEnableCall ps),
                   r\<lparr>enablePatterns := ps,
                     handlers := handlers r @ [\<lparr>pattern = pat, regexp = reg, handler = h\<rparr>]\<rparr>))"


section \<open>Execution contexts, helpers and \<open>Page.Evaluate\<close>\<close>

text \<open>
  The answer of the remote end to a call of a page: the remote object of the result
  (\<open>Result\<close>, or \<open>Object\<close> for \<open>DOM.resolveNode\<close>), the exception details of a
  function call, and the backend node id of the content document of a described node
  (\<open>None\<close> when \<open>ContentDocument\<close> is \<open>nil\<close>). The remote end is a parameter
  that sees what the page has done so far.
\<close>

record reply =
  replyObject :: RuntimeRemoteObject
  replyException :: "string option"
  replyContentDocument :: "nat option"

type_synonym remote = "event list \<Rightarrow> pageCall \<Rightarrow> error + reply"

datatype jsFunction = jsFunction (Name: string) (Definition: string) (Dependencies: "jsFunction list")

datatype jsArg = RemoteObjectArg RuntimeRemoteObject | FunctionArg jsFunction | PlainArg string

record EvalOptions =
  ByValue :: bool
  AwaitPromise :: bool
  ThisObj :: "RuntimeRemoteObject option"
  JS :: string
  JSArgs :: "jsArg list"
  UserGesture :: bool

definition callRemote :: "remote \<Rightarrow> Page \<Rightarrow> pageCall \<Rightarrow> (error + reply) \<times> Page" where
  "callRemote rm p c = (rm (trace p) c, p\<lparr>trace := trace p @ [Called c]\<rparr>)"

definition plainCall :: "string \<Rightarrow> string \<Rightarrow> RuntimeCallArgument list \<Rightarrow> pageCall" where
  "plainCall objectID declaration args =
     RuntimeCallFunctionOnCall
       \<lparr>cfAwaitPromise = False, cfReturnByValue = False, cfUserGesture = False,
        cfFunctionDeclaration = declaration, cfArguments = args, cfObjectID = objectID\<rparr>"

text \<open>Modelled from the spec: \<open>Page.IsIframe\<close>, a nested frame being one that has its DOM node.\<close>

definition IsIframe :: "Page \<Rightarrow> bool" where
  "IsIframe p \<longleftrightarrow> element p \<noteq> None"

definition getHelper :: "Page \<Rightarrow> string \<Rightarrow> string \<Rightarrow> string option \<times> Page" where
  "getHelper p ctxID name =
     (let hs = (case helpers p of None \<Rightarrow> Map.empty | Some m \<Rightarrow> m);
          list = (case hs ctxID of None \<Rightarrow> Map.empty | Some l \<Rightarrow> l)
      in (list name, p\<lparr>helpers := Some (hs(ctxID \<mapsto> list))\<rparr>))"

text \<open>Writing into a \<open>nil\<close> map panics.\<close>

definition setHelper :: "Page \<Rightarrow> string \<Rightarrow> string \<Rightarrow> string \<Rightarrow> unit outcome \<times> Page" where
  "setHelper p ctxID name fnID =
     (case helpers p of
        None \<Rightarrow> (Panics, p)
      | Some hs \<Rightarrow>
          (case hs ctxID of
             None \<Rightarrow> (Panics, p)
           | Some list \<Rightarrow> (Returns (), p\<lparr>helpers := Some (hs(ctxID \<mapsto> list(name \<mapsto> fnID)))\<rparr>)))"

definition jsCtxIDByObjectID :: "remote \<Rightarrow> Page \<Rightarrow> string \<Rightarrow> (error + string) \<times> Page" where
  "jsCtxIDByObjectID rm p objectID =
     (case callRemote rm p (plainCall objectID ''() => window'' []) of
        (Inl err, p1) \<Rightarrow> (Inl err, p1)
      | (Inr res, p1) \<Rightarrow> (Inr (ObjectID (replyObject res)), p1))"

definition getJSCtxID :: "remote \<Rightarrow> Page \<Rightarrow> (error + string) outcome \<times> Page" where
  "getJSCtxID rm p =
     (if jsCtxID p \<noteq> [] then (Returns (Inr (jsCtxID p)), p)
      else if \<not> IsIframe p then
        (case callRemote rm p (RuntimeEvaluateCall ''window'') of
           (Inl err, p1) \<Rightarrow> (Returns (Inl err), p1)
         | (Inr obj, p1) \<Rightarrow>
             (Returns (Inr (ObjectID (replyObject obj))),
              p1\<lparr>jsCtxID := ObjectID (replyObject obj), helpers := None\<rparr>))
      else
        (case element p of
           None \<Rightarrow> (Panics, p)
         | Some el \<Rightarrow>
             (case callRemote rm p (DOMDescribeNodeCall el 1 True) of
                (Inl err, p1) \<Rightarrow> (Returns (Inl err), p1)
              | (Inr node, p1) \<Rightarrow>
                  (case replyContentDocument node of
                     None \<Rightarrow> (Panics, p1)
                   | Some backendNodeID \<Rightarrow>
                       (case callRemote rm p1 (DOMResolveNodeCall backendNodeID) of
                          (Inl err, p2) \<Rightarrow> (Returns (Inl err), p2)
                        | (Inr obj, p2) \<Rightarrow>
                            (let p3 = p2\<lparr>helpers :=
                                          map_option (\<lambda>hs. hs(jsCtxID p2 := None)) (helpers p2)\<rparr>
                             in case jsCtxIDByObjectID rm p3 (ObjectID (replyObject obj)) of
                                  (Inl err, p4) \<Rightarrow> (Returns (Inl err), p4\<lparr>jsCtxID := []\<rparr>)
                                | (Inr ctxID, p4) \<Rightarrow>
                                    (Returns (Inr ctxID), p4\<lparr>jsCtxID := ctxID\<rparr>)))))))"

definition unsetJSCtxID :: "Page \<Rightarrow> Page" where
  "unsetJSCtxID p = p\<lparr>jsCtxID := []\<rparr>"

text \<open>
  The first half of \<open>ensureJSHelper\<close>: the object that holds the helpers, under
  the name of \<open>js.Functions\<close> (a parameter, the package \<open>js\<close> not being among the
  sources).
\<close>

definition ensureFunctions :: "remote \<Rightarrow> jsFunction \<Rightarrow> string \<Rightarrow> Page \<Rightarrow> (error + string) outcome \<times> Page" where
  "ensureFunctions rm fns ctxID p =
     (case getHelper p ctxID (Name fns) of
        (Some fnID, p1) \<Rightarrow> (Returns (Inr fnID), p1)
      | (None, p1) \<Rightarrow>
          (case callRemote rm p1 (plainCall ctxID (Definition fns) []) of
             (Inl err, p2) \<Rightarrow> (Returns (Inl err), p2)
           | (Inr res, p2) \<Rightarrow>
               (case setHelper p2 ctxID (Name fns) (ObjectID (replyObject res)) of
                  (Panics, p3) \<Rightarrow> (Panics, p3)
                | (Returns _, p3) \<Rightarrow> (Returns (Inr (ObjectID (replyObject res))), p3))))"

definition helperDeclaration :: "string \<Rightarrow> string \<Rightarrow> string" where
  "helperDeclaration name defn =
     ''functions => { const f = functions.'' @ name @ '' = '' @ defn @
     ''; f.toString = () => '' @ [CHR 0x27] @ ''fn'' @ [CHR 0x27] @ ''; return f }''"

fun ensureJSHelper :: "remote \<Rightarrow> jsFunction \<Rightarrow> jsFunction \<Rightarrow> Page \<Rightarrow> (error + string) outcome \<times> Page"
  and ensureDependencies :: "remote \<Rightarrow> jsFunction \<Rightarrow> jsFunction list \<Rightarrow> Page \<Rightarrow> (error + unit) outcome \<times> Page"
where
  "ensureJSHelper rm fns (jsFunction name defn deps) p =
     (case getJSCtxID rm p of
        (Panics, p1) \<Rightarrow> (Panics, p1)
      | (Returns (Inl err), p1) \<Rightarrow> (Returns (Inl err), p1)
      | (Returns (Inr ctxID), p1) \<Rightarrow>
          (case ensureFunctions rm fns ctxID p1 of
             (Panics, p2) \<Rightarrow> (Panics, p2)
           | (Returns (Inl err), p2) \<Rightarrow> (Returns (Inl err), p2)
           | (Returns (Inr fnID), p2) \<Rightarrow>
               (case getHelper p2 ctxID name of
                  (Some helperID, p3) \<Rightarrow> (Returns (Inr helperID), p3)
                | (None, p3) \<Rightarrow>
                    (case ensureDependencies rm fns deps p3 of
                       (Panics, p4) \<Rightarrow> (Panics, p4)
                     | (Returns (Inl err), p4) \<Rightarrow> (Returns (Inl err), p4)
                     | (Returns (Inr _), p4) \<Rightarrow>
                         (case callRemote rm p4
                                 (plainCall ctxID (helperDeclaration name defn) [ArgObjectID fnID]) of
                            (Inl err, p5) \<Rightarrow> (Returns (Inl err), p5)
                          | (Inr res, p5) \<Rightarrow>
                              (case setHelper p5 ctxID name (ObjectID (replyObject res)) of
                                 (Panics, p6) \<Rightarrow> (Panics, p6)
                               | (Returns _, p6) \<Rightarrow>
                                   (Returns (Inr (ObjectID (replyObject res))), p6)))))))"
| "ensureDependencies rm fns [] p = (Returns (Inr ()), p)"
| "ensureDependencies rm fns (dep # deps) p =
     (case ensureJSHelper rm fns dep p of
        (Panics, p1) \<Rightarrow> (Panics, p1)
      | (Returns (Inl err), p1) \<Rightarrow> (Returns (Inl err), p1)
      | (Returns (Inr _), p1) \<Rightarrow> ensureDependencies rm fns deps p1)"

fun formatArgs ::
  "remote \<Rightarrow> jsFunction \<Rightarrow> jsArg list \<Rightarrow> RuntimeCallArgument list \<Rightarrow> Page \<Rightarrow>
   (error + RuntimeCallArgument list) outcome \<times> Page" where
  "formatArgs rm fns [] formated p = (Returns (Inr formated), p)"
| "formatArgs rm fns (RemoteObjectArg obj # args) formated p =
     formatArgs rm fns args (formated @ [ArgObjectID (ObjectID obj)]) p"
| "formatArgs rm fns (FunctionArg f # args) formated p =
     (case ensureJSHelper rm fns f p of
        (Panics, p1) \<Rightarrow> (Panics, p1)
      | (Returns (Inl err), p1) \<Rightarrow> (Returns (Inl err), p1)
      | (Returns (Inr helperID), p1) \<Rightarrow>
          formatArgs rm fns args (formated @ [ArgObjectID helperID]) p1)"
| "formatArgs rm fns (PlainArg v # args) formated p =
     formatArgs rm fns args (formated @ [ArgValue v]) p"

text \<open>\<open>strings.Trim\<close> with a cutset, and \<open>EvalOptions.formatToJSFunc\<close>.\<close>

definition Trim :: "string \<Rightarrow> string \<Rightarrow> string" where
  "Trim s cutset = rev (dropWhile (\<lambda>c. c \<in> set cutset) (rev (dropWhile (\<lambda>c. c \<in> set cutset) s)))"

definition formatToJSFunc :: "EvalOptions \<Rightarrow> string" where
  "formatToJSFunc opts =
     ''function() { return ('' @
     Trim (JS opts) [CHR 0x09, CHR 0x0A, CHR 0x0B, CHR 0x0C, CHR 0x0D, CHR '' '', CHR '';''] @
     '').apply(this, arguments) }''"

definition evaluate :: "remote \<Rightarrow> jsFunction \<Rightarrow> Page \<Rightarrow> EvalOptions \<Rightarrow> (error + RuntimeRemoteObject) outcome \<times> Page" where
  "evaluate rm fns p opts =
     (case formatArgs rm fns (JSArgs opts) [] p of
        (Panics, p1) \<Rightarrow> (Panics, p1)
      | (Returns (Inl err), p1) \<Rightarrow> (Returns (Inl err), p1)
      | (Returns (Inr args), p1) \<Rightarrow>
          (case (case ThisObj opts of
                   None \<Rightarrow> getJSCtxID rm p1
                 | Some this \<Rightarrow> (Returns (Inr (ObjectID this)), p1)) of
             (Panics, p2) \<Rightarrow> (Panics, p2)
           | (Returns (Inl err), p2) \<Rightarrow> (Returns (Inl err), p2)
           | (Returns (Inr objectID), p2) \<Rightarrow>
               (case callRemote rm p2
                       (RuntimeCallFunctionOnCall
                          \<lparr>cfAwaitPromise = AwaitPromise opts, cfReturnByValue = ByValue opts,
                           cfUserGesture = UserGesture opts,
                           cfFunctionDeclaration = formatToJSFunc opts,
                           cfArguments = args, cfObjectID = objectID\<rparr>) of
                  (Inl err, p3) \<Rightarrow> (Returns (Inl err), p3)
                | (Inr res, p3) \<Rightarrow>
                    (case replyException res of
                       Some details \<Rightarrow> (Returns (Inl (ErrEval details)), p3)
                     | None \<Rightarrow> (Returns (Inr (replyObject res)), p3)))))"

text \<open>
  The loop of \<open>Page.Evaluate\<close>. \<open>utils.BackoffSleeper\<close> is not among the sources:
  the sleeper is the number of sleeps it has given, \<open>None\<close> while the variable
  \<open>backoff\<close> is \<open>nil\<close>, and a call of it is the event \<open>Slept\<close>. The loop has no
  exit but its \<open>return\<close>s, so the result is \<open>None\<close> when it runs forever.
\<close>

partial_function (option) Evaluate_loop ::
  "remote \<Rightarrow> jsFunction \<Rightarrow> EvalOptions \<Rightarrow> nat option \<Rightarrow> Page \<Rightarrow>
   ((error + RuntimeRemoteObject) outcome \<times> Page) option" where
  "Evaluate_loop rm fns opts backoff p =
     (case evaluate rm fns p opts of
        (Panics, p1) \<Rightarrow> Some (Panics, p1)
      | (Returns (Inr res), p1) \<Rightarrow> Some (Returns (Inr res), p1)
      | (Returns (Inl err), p1) \<Rightarrow>
          if err = ErrCtxNotFound then
            (case ThisObj opts of
               Some this \<Rightarrow> Some (Returns (Inl (ErrObjectNotFound this)), p1)
             | None \<Rightarrow>
                 (case backoff of
                    None \<Rightarrow> Evaluate_loop rm fns opts (Some 0) (unsetJSCtxID p1)
                  | Some n \<Rightarrow>
                      Evaluate_loop rm fns opts (Some (Suc n))
                        (unsetJSCtxID (p1\<lparr>trace := trace p1 @ [Slept n]\<rparr>))))
          else Some (Returns (Inl err), p1))"

definition Evaluate :: "remote \<Rightarrow> jsFunction \<Rightarrow> EvalOptions \<Rightarrow> Page \<Rightarrow> ((error + RuntimeRemoteObject) outcome \<times> Page) option" where
  "Evaluate rm fns opts p = Evaluate_loop rm fns opts None p"


section \<open>Sample values\<close>

definition FetchEnable :: "string \<Rightarrow> request" where
  "FetchEnable patterns = \<lparr>ProtoReq = ''Fetch.enable'', reqFields = patterns\<rparr>"

definition freshBrowser :: Browser where
  "freshBrowser =
     \<lparr>BrowserContextID = [], defaultDeviceIsClear = True, states = Map.empty,
      cachedPages = Map.empty, allocated = [], calls = []\<rparr>"

text \<open>A browser on which \<open>Fetch.enable\<close> is recorded with the patterns \<open>*.js\<close>.\<close>

definition fetchingBrowser :: Browser where
  "fetchingBrowser = freshBrowser\<lparr>states := [key freshBrowser [] ''Fetch.enable'' \<mapsto> Some (FetchEnable ''*.js'')]\<rparr>"

definition succeeding :: client where
  "succeeding = (\<lambda>_ _. Inr ''{}'')"

definition failing :: client where
  "failing = (\<lambda>_ _. Inl (ErrRemote ''closed''))"

definition readSession :: "string \<Rightarrow> error + string" where
  "readSession bin = Inr ''session-1''"

definition noEmulation :: "nat \<Rightarrow> Browser \<Rightarrow> error option \<times> Browser" where
  "noEmulation addr b = (None, b)"

definition accepting :: fetchClient where
  "accepting = (\<lambda>_ _. None)"

definition skipping :: "Hijack \<Rightarrow> Hijack" where
  "skipping ctx = ctx\<lparr>Skip := True\<rparr>"

definition continuing :: "Hijack \<Rightarrow> Hijack" where
  "continuing ctx = ctx\<lparr>continueRequest := Some \<lparr>continueRequestID = [], continueFields = []\<rparr>\<rparr>"

definition pausedAt :: "string \<Rightarrow> FetchRequestPaused" where
  "pausedAt url = \<lparr>pausedRequestID = ''1'', pausedURL = url\<rparr>"

text \<open>A router with the one pattern \<open>/a*\<close>, whose handler sets \<open>Skip\<close>.\<close>

definition skippingRouter :: HijackRouter where
  "skippingRouter =
     (case Add accepting newHijackRouter ''/a*'' [] skipping of
        Some (_, r) \<Rightarrow> r
      | None \<Rightarrow> newHijackRouter)"

text \<open>
  A router with a handler for \<open>/a*\<close> that continues the request, and after it a
  handler for the empty pattern.
\<close>

definition shadowedRouter :: HijackRouter where
  "shadowedRouter =
     (case Add accepting newHijackRouter ''/a*'' [] continuing of
        None \<Rightarrow> newHijackRouter
      | Some (_, r) \<Rightarrow>
          (case Add accepting r [] [] skipping of
             None \<Rightarrow> newHijackRouter
           | Some (_, r') \<Rightarrow> r'))"

text \<open>Pages, options and remote ends for the execution-context resolver.\<close>

definition object :: "string \<Rightarrow> reply" where
  "object objectID =
     \<lparr>replyObject = \<lparr>ObjectID = objectID, Description = []\<rparr>, replyException = None,
      replyContentDocument = Some 7\<rparr>"

text \<open>A remote end on which every object resolves, the window being \<open>ctxID\<close>.\<close>

definition resolving :: "string \<Rightarrow> remote" where
  "resolving ctxID = (\<lambda>_ c. case c of
       RuntimeEvaluateCall _ \<Rightarrow> Inr (object ctxID)
     | DOMDescribeNodeCall _ _ _ \<Rightarrow> Inr (object [])
     | DOMResolveNodeCall _ \<Rightarrow> Inr (object ''document'')
     | RuntimeCallFunctionOnCall _ \<Rightarrow> Inr (object ctxID))"

text \<open>
  A remote end whose first function call finds no context and whose later ones
  answer, and one on which no call ever finds a context.
\<close>

definition isFunctionCall :: "event \<Rightarrow> bool" where
  "isFunctionCall ev = (case ev of Called (RuntimeCallFunctionOnCall _) \<Rightarrow> True | _ \<Rightarrow> False)"

definition staleOnce :: remote where
  "staleOnce = (\<lambda>done c. case c of
       RuntimeCallFunctionOnCall _ \<Rightarrow>
         if list_ex isFunctionCall done then Inr (object ''result'') else Inl ErrCtxNotFound
     | _ \<Rightarrow> Inr (object ''ctx-2''))"

definition alwaysStale :: remote where
  "alwaysStale = (\<lambda>_ _. Inl ErrCtxNotFound)"

definition topPage :: Page where
  "topPage =
     \<lparr>TargetID = ''T1'', SessionID = ''session-1'', FrameID = ''T1'', element = None,
      jsCtxID = ''ctx-1'', helpers = Some [''ctx-1'' \<mapsto> [''functions'' \<mapsto> ''fn-1'']], trace = []\<rparr>"

definition framePage :: Page where
  "framePage = topPage\<lparr>element := Some ''iframe-1''\<rparr>"

definition noFunctions :: jsFunction where
  "noFunctions = jsFunction ''functions'' ''({})'' []"

definition plainEval :: EvalOptions where
  "plainEval =
     \<lparr>ByValue = True, AwaitPromise = False, ThisObj = None, JS = ''() => 1'', JSArgs = [],
      UserGesture = False\<rparr>"

definition element1 :: RuntimeRemoteObject where
  "element1 = \<lparr>ObjectID = ''element-1'', Description = ''div''\<rparr>"

definition thisEval :: EvalOptions where
  "thisEval = plainEval\<lparr>ThisObj := Some element1\<rparr>"

definition closedRemote :: remote where
  "closedRemote = (\<lambda>_ _. Inl (ErrRemote ''closed''))"

text \<open>The function call that \<open>evaluate\<close> issues for \<open>plainEval\<close> on an object.\<close>

definition functionCallOn :: "string \<Rightarrow> pageCall" where
  "functionCallOn objectID =
     RuntimeCallFunctionOnCall
       \<lparr>cfAwaitPromise = False, cfReturnByValue = True, cfUserGesture = False,
        cfFunctionDeclaration = formatToJSFunc plainEval, cfArguments = [],
        cfObjectID = objectID\<rparr>"



section \<open>The state cache: parsing method names and \<open>set\<close>\<close>

lemma Split_no_sep: "sep \<notin> set s \<Longrightarrow> Split sep s = [s]"
  by (induction s) auto

lemma Split_append: "sep \<notin> set d \<Longrightarrow> Split sep (d @ sep # r) = d # Split sep r"
  by (induction d) auto

lemma Split_head: "Split sep s = x # xs \<Longrightarrow> sep \<notin> set x"
  by (induction s arbitrary: x xs) (auto split: if_splits list.splits)

lemma ParseMethodName_domain:
  "CHR ''.'' \<notin> set d \<Longrightarrow> CHR ''.'' \<notin> set n \<Longrightarrow> ParseMethodName (d @ CHR ''.'' # n) = Some (d, n)"
  by (simp add: ParseMethodName_def Split_append Split_no_sep)

lemma ParseMethodName_no_dot: "ParseMethodName m = Some (d, n) \<Longrightarrow> CHR ''.'' \<notin> set d"
  by (auto simp: ParseMethodName_def split: list.splits dest: Split_head)

lemma ParseMethodName_disable:
  "CHR ''.'' \<notin> set d \<Longrightarrow> ParseMethodName (d @ ''.disable'') = Some (d, ''disable'')"
  using ParseMethodName_domain [of d "''disable''"] by simp

lemma ParseMethodName_enable:
  "CHR ''.'' \<notin> set d \<Longrightarrow> ParseMethodName (d @ ''.enable'') = Some (d, ''enable'')"
  using ParseMethodName_domain [of d "''enable''"] by simp

lemma ParseMethodName_clear:
  "ParseMethodName EmulationClearDeviceMetricsOverride = Some (''Emulation'', ''clearDeviceMetricsOverride'')"
  "ParseMethodName EmulationClearGeolocationOverride = Some (''Emulation'', ''clearGeolocationOverride'')"
  by (simp_all add: ParseMethodName_def EmulationClearDeviceMetricsOverride_def EmulationClearGeolocationOverride_def)

lemma disable_not_clear:
  assumes "CHR ''.'' \<notin> set d"
  shows "d @ ''.disable'' \<noteq> EmulationClearDeviceMetricsOverride"
    and "d @ ''.disable'' \<noteq> EmulationClearGeolocationOverride"
  using ParseMethodName_disable [OF assms] ParseMethodName_clear by auto

lemma enable_not_clear:
  assumes "CHR ''.'' \<notin> set d"
  shows "d @ ''.enable'' \<noteq> EmulationClearDeviceMetricsOverride"
    and "d @ ''.enable'' \<noteq> EmulationClearGeolocationOverride"
  using ParseMethodName_enable [OF assms] ParseMethodName_clear by auto

lemma key_eq_iff: "key b s m = key b' s' m' \<longleftrightarrow> BrowserContextID b = BrowserContextID b' \<and> s = s' \<and> m = m'"
  by (auto simp: key_def)

lemma key_states_update [simp]: "key (b\<lparr>states := x\<rparr>) s m = key b s m"
  and key_calls_update [simp]: "key (b\<lparr>calls := y\<rparr>) s m = key b s m"
  by (simp_all add: key_def)

lemma parsed_disable_other:
  assumes "ParseMethodName m = Some (d, ''disable'')"
  shows "d @ ''.enable'' \<noteq> m"
proof
  assume "d @ ''.enable'' = m"
  with assms ParseMethodName_enable [OF ParseMethodName_no_dot [OF assms]] show False by simp
qed

lemma set_state_stored: "states (snd (set_state b sid m ps)) (key b sid m) = Some ps"
  by (auto simp: set_state_def Let_def Delete_def key_eq_iff
        EmulationClearDeviceMetricsOverride_def EmulationSetDeviceMetricsOverride_def
        EmulationClearGeolocationOverride_def EmulationSetGeolocationOverride_def
        split: option.splits dest: parsed_disable_other)

lemma set_state_calls: "calls (snd (set_state b sid m ps)) = calls b"
  by (auto simp: set_state_def Let_def Delete_def split: option.splits)

lemma set_state_disable:
  "CHR ''.'' \<notin> set d \<Longrightarrow>
   set_state b sid (d @ ''.disable'') ps =
     (Returns (), b\<lparr>states := ((states b)(key b sid (d @ ''.disable'') \<mapsto> ps))(key b sid (d @ ''.enable'') := None)\<rparr>)"
  by (simp add: set_state_def Let_def Delete_def disable_not_clear ParseMethodName_disable)

lemma set_state_enable:
  "CHR ''.'' \<notin> set d \<Longrightarrow>
   set_state b sid (d @ ''.enable'') ps =
     (Returns (), b\<lparr>states := (states b)(key b sid (d @ ''.enable'') \<mapsto> ps)\<rparr>)"
  by (simp add: set_state_def Let_def Delete_def enable_not_clear ParseMethodName_enable)

lemma set_state_clear:
  "states (snd (set_state b sid EmulationClearDeviceMetricsOverride ps)) (key b sid EmulationSetDeviceMetricsOverride) = None"
  "states (snd (set_state b sid EmulationClearGeolocationOverride ps)) (key b sid EmulationSetGeolocationOverride) = None"
  by (simp_all add: set_state_def Let_def Delete_def EmulationClearDeviceMetricsOverride_def EmulationSetDeviceMetricsOverride_def
        EmulationClearGeolocationOverride_def EmulationSetGeolocationOverride_def)

text \<open>
  C10: \<open>Browser.Call\<close> touches the state cache exactly when the client call succeeds.
  When the client answers with an error, \<open>Call\<close> returns that error and the cache is
  the one it was. When the client answers with a result, the parameters are stored under
  the key of the browser context, the session and the method, and the counterpart entry
  is gone: the set-override entry for a clear-override method, the \<open>enable\<close> entry of
  the domain for its \<open>disable\<close> method.
\<close>

theorem Call_cache_follows_client:
  "(cl (calls b) \<lparr>callSessionID = S, callMethod = m, callParams = p\<rparr> = Inl err \<longrightarrow>
      fst (Call cl b S m p) = Returns (Inl err) \<and> states (snd (Call cl b S m p)) = states b)
   \<and> (cl (calls b) \<lparr>callSessionID = S, callMethod = m, callParams = p\<rparr> = Inr res \<longrightarrow>
      states (snd (Call cl b S m p)) (key b S m) = Some p
      \<and> (m = EmulationClearDeviceMetricsOverride \<longrightarrow>
           states (snd (Call cl b S m p)) (key b S EmulationSetDeviceMetricsOverride) = None)
      \<and> (m = EmulationClearGeolocationOverride \<longrightarrow>
           states (snd (Call cl b S m p)) (key b S EmulationSetGeolocationOverride) = None)
      \<and> (\<forall>d. CHR ''.'' \<notin> set d \<and> m = d @ ''.disable'' \<longrightarrow>
           states (snd (Call cl b S m p)) (key b S (d @ ''.enable'')) = None))"
proof (intro conjI impI allI)
  assume "cl (calls b) \<lparr>callSessionID = S, callMethod = m, callParams = p\<rparr> = Inl err"
  then show "fst (Call cl b S m p) = Returns (Inl err)" "states (snd (Call cl b S m p)) = states b"
    by (simp_all add: Call_def Let_def)
next
  assume ok: "cl (calls b) \<lparr>callSessionID = S, callMethod = m, callParams = p\<rparr> = Inr res"
  define b1 where "b1 = b\<lparr>calls := calls b @ [\<lparr>callSessionID = S, callMethod = m, callParams = p\<rparr>]\<rparr>"
  have snd_eq: "snd (Call cl b S m p) = snd (set_state b1 S m p)"
    using ok by (simp add: Call_def Let_def b1_def split: prod.splits outcome.splits)
  have st: "states b1 = states b" and k: "\<And>x. key b1 S x = key b S x"
    by (simp_all add: b1_def)
  show "states (snd (Call cl b S m p)) (key b S m) = Some p"
    using set_state_stored [of b1 S m p] by (simp add: snd_eq k)
  show "states (snd (Call cl b S m p)) (key b S EmulationSetDeviceMetricsOverride) = None"
    if "m = EmulationClearDeviceMetricsOverride"
    using set_state_clear(1) [of b1 S p] snd_eq that by (simp add: k)
  show "states (snd (Call cl b S m p)) (key b S EmulationSetGeolocationOverride) = None"
    if "m = EmulationClearGeolocationOverride"
    using set_state_clear(2) [of b1 S p] snd_eq that by (simp add: k)
  show "states (snd (Call cl b S m p)) (key b S (d @ ''.enable'')) = None"
    if "CHR ''.'' \<notin> set d \<and> m = d @ ''.disable''" for d
    using that snd_eq by (simp add: set_state_disable k)
qed


theorem Call_cache_follows_client_witness:
  "states (snd (Call failing fetchingBrowser [] ''Fetch.disable'' None)) = states fetchingBrowser
   \<and> states (snd (Call succeeding fetchingBrowser [] ''Fetch.disable'' None))
         (key fetchingBrowser [] ''Fetch.disable'') = Some None
   \<and> states (snd (Call succeeding fetchingBrowser [] ''Fetch.disable'' None))
         (key fetchingBrowser [] ''Fetch.enable'') = None
   \<and> states (snd (Call succeeding fetchingBrowser [] EmulationClearDeviceMetricsOverride None))
         (key fetchingBrowser [] EmulationSetDeviceMetricsOverride) = None
   \<and> states (snd (Call succeeding fetchingBrowser [] EmulationClearGeolocationOverride None))
         (key fetchingBrowser [] EmulationSetGeolocationOverride) = None"
  using Call_cache_follows_client [of failing fetchingBrowser "[]" "''Fetch.disable''" None "ErrRemote ''closed''"]
    Call_cache_follows_client [of succeeding fetchingBrowser "[]" "''Fetch.disable''" None _ "''{}''", THEN conjunct2]
    Call_cache_follows_client [of succeeding fetchingBrowser "[]" EmulationClearDeviceMetricsOverride None _ "''{}''", THEN conjunct2]
    Call_cache_follows_client [of succeeding fetchingBrowser "[]" EmulationClearGeolocationOverride None _ "''{}''", THEN conjunct2]
  by (simp add: failing_def succeeding_def)

section \<open>Enabling and disabling domains\<close>


lemma Call_enable_ok:
  assumes "cl (calls b) \<lparr>callSessionID = sid, callMethod = d @ ''.enable'', callParams = ps\<rparr> = Inr r"
    and "CHR ''.'' \<notin> set d"
  shows "Call cl b sid (d @ ''.enable'') ps =
           (Returns (Inr r),
            b\<lparr>calls := calls b @ [\<lparr>callSessionID = sid, callMethod = d @ ''.enable'', callParams = ps\<rparr>],
              states := (states b)(key b sid (d @ ''.enable'') \<mapsto> ps)\<rparr>)"
  using assms by (simp add: Call_def Let_def set_state_enable)

lemma Call_disable_ok:
  assumes "cl (calls b) \<lparr>callSessionID = sid, callMethod = d @ ''.disable'', callParams = ps\<rparr> = Inr r"
    and "CHR ''.'' \<notin> set d"
  shows "Call cl b sid (d @ ''.disable'') ps =
           (Returns (Inr r),
            b\<lparr>calls := calls b @ [\<lparr>callSessionID = sid, callMethod = d @ ''.disable'', callParams = ps\<rparr>],
              states := ((states b)(key b sid (d @ ''.disable'') \<mapsto> ps))(key b sid (d @ ''.enable'') := None)\<rparr>)"
  using assms by (simp add: Call_def Let_def set_state_disable)

text \<open>
  C4: enabling a domain nests. Let \<open>A\<close> be the enable request of a domain \<open>d\<close>, not
  recorded for the session, and let every call succeed. The first \<open>EnableDomain\<close>
  issues the enable call; the second issues nothing and leaves the browser as it is; the
  restore of the second does nothing on any browser, so after it the domain is still
  recorded as enabled; the restore of the first, run after it, issues the one disable
  call, after which the entry of \<open>A\<close> is gone.
\<close>

theorem EnableDomain_nests:
  assumes req: "ProtoReq A = d @ ''.enable''" and dom: "CHR ''.'' \<notin> set d"
    and fresh: "states b (key b sid (ProtoReq A)) = None"
    and ok: "\<forall>h c. \<exists>r. cl h c = Inr r"
  shows "\<exists>restore1 b1 restore2.
           EnableDomain cl b sid A = (Returns restore1, b1)
         \<and> EnableDomain cl b1 sid A = (Returns restore2, b1)
         \<and> calls b1 = calls b @ [\<lparr>callSessionID = sid, callMethod = d @ ''.enable'', callParams = Some A\<rparr>]
         \<and> states b1 (key b sid (ProtoReq A)) = Some (Some A)
         \<and> (\<forall>b'. restore2 b' = (Returns (), b'))
         \<and> (\<exists>b2. restore1 (snd (restore2 b1)) = (Returns (), b2)
               \<and> calls b2 = calls b @ [\<lparr>callSessionID = sid, callMethod = d @ ''.enable'', callParams = Some A\<rparr>,
                                        \<lparr>callSessionID = sid, callMethod = d @ ''.disable'', callParams = None\<rparr>]
               \<and> states b2 (key b sid (ProtoReq A)) = None)"
proof -
  let ?en = "\<lparr>callSessionID = sid, callMethod = d @ ''.enable'', callParams = Some A\<rparr>"
  let ?dis = "\<lparr>callSessionID = sid, callMethod = d @ ''.disable'', callParams = None\<rparr>"
  obtain r where r: "cl (calls b) ?en = Inr r" using ok by blast
  define b1 where "b1 = b\<lparr>calls := calls b @ [?en], states := (states b)(key b sid (d @ ''.enable'') \<mapsto> Some A)\<rparr>"
  obtain r' where r': "cl (calls b1) ?dis = Inr r'" using ok by blast
  define b2 where "b2 = b1\<lparr>calls := calls b1 @ [?dis],
      states := ((states b1)(key b1 sid (d @ ''.disable'') \<mapsto> None))(key b1 sid (d @ ''.enable'') := None)\<rparr>"
  define restore1 :: restore where "restore1 = (\<lambda>b'. discard (Call cl b' sid (d @ ''.disable'') None))"
  define restore2 :: restore where "restore2 = (\<lambda>b'. (Returns (), b'))"
  have k1: "\<And>m. key b1 sid m = key b sid m" by (simp add: b1_def key_def)
  have first: "EnableDomain cl b sid A = (Returns restore1, b1)"
    using fresh req dom Call_enable_ok [of cl b sid d "Some A" r, OF r dom]
    by (simp add: EnableDomain_def Let_def discard_def ParseMethodName_enable restore1_def b1_def)
  have enabled: "states b1 (key b1 sid (ProtoReq A)) = Some (Some A)"
    by (simp add: b1_def req key_def)
  have second: "EnableDomain cl b1 sid A = (Returns restore2, b1)"
    using enabled by (simp add: EnableDomain_def Let_def restore2_def)
  have last: "restore1 (snd (restore2 b1)) = (Returns (), b2)"
    using Call_disable_ok [of cl b1 sid d None r', OF r' dom] by (simp add: restore1_def restore2_def discard_def b2_def)
  have "calls b2 = calls b @ [?en, ?dis]" by (simp add: b2_def b1_def)
  moreover have "states b2 (key b sid (ProtoReq A)) = None" by (simp add: b2_def k1 req)
  moreover have "calls b1 = calls b @ [?en]" by (simp add: b1_def)
  moreover have "\<forall>b'. restore2 b' = (Returns (), b')" by (simp add: restore2_def)
  ultimately show ?thesis using first second last enabled k1 by auto
qed

theorem EnableDomain_nests_witness:
  "ProtoReq (FetchEnable ''*.js'') = ''Fetch'' @ ''.enable'' \<and> CHR ''.'' \<notin> set ''Fetch''
   \<and> states freshBrowser (key freshBrowser [] (ProtoReq (FetchEnable ''*.js''))) = None
   \<and> (\<forall>h c. \<exists>r. succeeding h c = Inr r)
   \<and> (\<exists>restore1 b1 restore2.
           EnableDomain succeeding freshBrowser [] (FetchEnable ''*.js'') = (Returns restore1, b1)
         \<and> EnableDomain succeeding b1 [] (FetchEnable ''*.js'') = (Returns restore2, b1)
         \<and> calls b1 = [\<lparr>callSessionID = [], callMethod = ''Fetch.enable'', callParams = Some (FetchEnable ''*.js'')\<rparr>]
         \<and> (\<exists>b2. restore1 (snd (restore2 b1)) = (Returns (), b2)
               \<and> calls b2 = [\<lparr>callSessionID = [], callMethod = ''Fetch.enable'', callParams = Some (FetchEnable ''*.js'')\<rparr>,
                             \<lparr>callSessionID = [], callMethod = ''Fetch.disable'', callParams = None\<rparr>]))"
proof -
  have h1: "ProtoReq (FetchEnable ''*.js'') = ''Fetch'' @ ''.enable''" by (simp add: FetchEnable_def)
  have h2: "CHR ''.'' \<notin> set ''Fetch''" by simp
  have h3: "states freshBrowser (key freshBrowser [] (ProtoReq (FetchEnable ''*.js''))) = None"
    by (simp add: freshBrowser_def)
  have h4: "\<forall>h c. \<exists>r. succeeding h c = Inr r" by (simp add: succeeding_def)
  from EnableDomain_nests [OF h1 h2 h3 h4] have
    "\<exists>restore1 b1 restore2.
           EnableDomain succeeding freshBrowser [] (FetchEnable ''*.js'') = (Returns restore1, b1)
         \<and> EnableDomain succeeding b1 [] (FetchEnable ''*.js'') = (Returns restore2, b1)
         \<and> calls b1 = [\<lparr>callSessionID = [], callMethod = ''Fetch.enable'', callParams = Some (FetchEnable ''*.js'')\<rparr>]
         \<and> (\<exists>b2. restore1 (snd (restore2 b1)) = (Returns (), b2)
               \<and> calls b2 = [\<lparr>callSessionID = [], callMethod = ''Fetch.enable'', callParams = Some (FetchEnable ''*.js'')\<rparr>,
                             \<lparr>callSessionID = [], callMethod = ''Fetch.disable'', callParams = None\<rparr>])"
    by (simp add: freshBrowser_def) blast
  with h1 h2 h3 h4 show ?thesis by blast
qed



lemma set_state_returns:
  "ParseMethodName m = Some x \<Longrightarrow> fst (set_state b sid m ps) = Returns ()"
  by (cases x) (simp add: set_state_def Let_def)

lemma Call_calls:
  "calls (snd (Call cl b sid m ps)) = calls b @ [\<lparr>callSessionID = sid, callMethod = m, callParams = ps\<rparr>]"
  by (auto simp: Call_def Let_def set_state_calls [where b = "b\<lparr>calls := x\<rparr>" for x, simplified]
        split: sum.splits prod.splits outcome.splits
        dest!: arg_cong [where f = "\<lambda>r. calls (snd r)"])

lemma Call_returns:
  assumes "ParseMethodName m = Some x"
  shows "\<exists>r. fst (Call cl b sid m ps) = Returns r"
proof (cases "cl (calls b) \<lparr>callSessionID = sid, callMethod = m, callParams = ps\<rparr>")
  case (Inl e)
  then show ?thesis by (simp add: Call_def Let_def)
next
  case (Inr r)
  let ?b1 = "b\<lparr>calls := calls b @ [\<lparr>callSessionID = sid, callMethod = m, callParams = ps\<rparr>]\<rparr>"
  from set_state_returns [OF assms, of ?b1 sid ps] Inr show ?thesis
    by (cases "set_state ?b1 sid m ps") (simp add: Call_def Let_def)
qed

lemma discard_Call:
  assumes "ParseMethodName m = Some x"
  shows "\<exists>b'. discard (Call cl b sid m ps) = (Returns (), b')
              \<and> calls b' = calls b @ [\<lparr>callSessionID = sid, callMethod = m, callParams = ps\<rparr>]"
proof -
  obtain r where "fst (Call cl b sid m ps) = Returns r" using Call_returns [OF assms] by blast
  then have "discard (Call cl b sid m ps) = (Returns (), snd (Call cl b sid m ps))"
    by (cases "Call cl b sid m ps") (simp add: discard_def)
  then show ?thesis using Call_calls by blast
qed

text \<open>
  C3, as the code has it: for a request whose method name has a dot, \<open>DisableDomain\<close>
  returns a restore function. When an entry \<open>P\<close> is recorded for the method, the
  disable call of the domain is issued, and the restore, on whatever browser it runs,
  issues one call of the method of \<open>req\<close> with \<open>req\<close> itself as parameters (the
  recorded \<open>P\<close> is never read). When nothing is recorded, the browser is left as it
  is and the restore does nothing.
\<close>

theorem DisableDomain_restores_with_request:
  assumes parsed: "ParseMethodName (ProtoReq req) = Some (d, n)"
  shows "\<exists>restore b1.
           DisableDomain cl b sid req = (Returns restore, b1)
         \<and> (states b (key b sid (ProtoReq req)) = Some P \<longrightarrow>
               calls b1 = calls b @ [\<lparr>callSessionID = sid, callMethod = d @ ''.disable'', callParams = None\<rparr>]
             \<and> (\<forall>b'. \<exists>b''. restore b' = (Returns (), b'')
                    \<and> calls b'' = calls b' @ [\<lparr>callSessionID = sid, callMethod = ProtoReq req,
                                               callParams = Some req\<rparr>]))
         \<and> (states b (key b sid (ProtoReq req)) = None \<longrightarrow>
               b1 = b \<and> (\<forall>b'. restore b' = (Returns (), b')))"
proof (cases "states b (key b sid (ProtoReq req))")
  case None
  then show ?thesis using parsed by (simp add: DisableDomain_def Let_def)
next
  case (Some Q)
  have dot: "CHR ''.'' \<notin> set d" using parsed by (rule ParseMethodName_no_dot)
  obtain b1 where disabled: "discard (Call cl b sid (d @ ''.disable'') None) = (Returns (), b1)"
    "calls b1 = calls b @ [\<lparr>callSessionID = sid, callMethod = d @ ''.disable'', callParams = None\<rparr>]"
    using discard_Call [OF ParseMethodName_disable [OF dot]] by blast
  have "DisableDomain cl b sid req =
          (Returns (\<lambda>b'. discard (Call cl b' sid (ProtoReq req) (Some req))), b1)"
    using Some parsed disabled(1) by (simp add: DisableDomain_def Let_def)
  moreover have "\<forall>b'. \<exists>b''. discard (Call cl b' sid (ProtoReq req) (Some req)) = (Returns (), b'')
        \<and> calls b'' = calls b' @ [\<lparr>callSessionID = sid, callMethod = ProtoReq req, callParams = Some req\<rparr>]"
    using discard_Call [OF parsed] by blast
  ultimately show ?thesis using Some disabled(2) by simp
qed

theorem DisableDomain_restores_with_request_witness:
  "ParseMethodName (ProtoReq (FetchEnable [])) = Some (''Fetch'', ''enable'')
   \<and> states fetchingBrowser (key fetchingBrowser [] (ProtoReq (FetchEnable []))) = Some (Some (FetchEnable ''*.js''))
   \<and> states freshBrowser (key freshBrowser [] (ProtoReq (FetchEnable []))) = None
   \<and> (\<exists>restore b1.
         DisableDomain succeeding fetchingBrowser [] (FetchEnable []) = (Returns restore, b1)
       \<and> calls b1 = [\<lparr>callSessionID = [], callMethod = ''Fetch.disable'', callParams = None\<rparr>]
       \<and> (\<forall>b'. \<exists>b''. restore b' = (Returns (), b'')
              \<and> calls b'' = calls b' @ [\<lparr>callSessionID = [], callMethod = ''Fetch.enable'',
                                         callParams = Some (FetchEnable [])\<rparr>]))
   \<and> (\<exists>restore. DisableDomain succeeding freshBrowser [] (FetchEnable []) = (Returns restore, freshBrowser)
       \<and> (\<forall>b'. restore b' = (Returns (), b')))"
proof -
  have h1: "ParseMethodName (ProtoReq (FetchEnable [])) = Some (''Fetch'', ''enable'')"
    by (simp add: FetchEnable_def ParseMethodName_def)
  have h2: "states fetchingBrowser (key fetchingBrowser [] (ProtoReq (FetchEnable []))) = Some (Some (FetchEnable ''*.js''))"
    by (simp add: fetchingBrowser_def freshBrowser_def FetchEnable_def key_def)
  have h3: "states freshBrowser (key freshBrowser [] (ProtoReq (FetchEnable []))) = None"
    by (simp add: freshBrowser_def)
  have c: "calls fetchingBrowser = []" by (simp add: fetchingBrowser_def freshBrowser_def)
  have p: "ProtoReq (FetchEnable []) = ''Fetch.enable''" by (simp add: FetchEnable_def)
  from DisableDomain_restores_with_request [OF h1, of succeeding fetchingBrowser "[]" "Some (FetchEnable ''*.js'')"] h2
  have a: "\<exists>restore b1.
         DisableDomain succeeding fetchingBrowser [] (FetchEnable []) = (Returns restore, b1)
       \<and> calls b1 = [\<lparr>callSessionID = [], callMethod = ''Fetch.disable'', callParams = None\<rparr>]
       \<and> (\<forall>b'. \<exists>b''. restore b' = (Returns (), b'')
              \<and> calls b'' = calls b' @ [\<lparr>callSessionID = [], callMethod = ''Fetch.enable'',
                                         callParams = Some (FetchEnable [])\<rparr>])"
    by (simp add: c p)
  from DisableDomain_restores_with_request [OF h1, of succeeding freshBrowser "[]"] h3
  have b: "\<exists>restore. DisableDomain succeeding freshBrowser [] (FetchEnable []) = (Returns restore, freshBrowser)
       \<and> (\<forall>b'. restore b' = (Returns (), b'))"
    by simp
  from h1 h2 h3 a b show ?thesis by blast
qed

text \<open>
  C3 as stated fails: with \<open>Fetch.enable\<close> recorded with the patterns \<open>*.js\<close>,
  disabling with an empty \<open>FetchEnable\<close> and restoring re-enables the domain with
  the empty request, not with the recorded one.
\<close>

theorem DisableDomain_restore_counterexample:
  "states fetchingBrowser (key fetchingBrowser [] (ProtoReq (FetchEnable []))) = Some (Some (FetchEnable ''*.js''))
   \<and> (case DisableDomain succeeding fetchingBrowser [] (FetchEnable []) of
         (Returns restore, b1) \<Rightarrow>
           calls (snd (restore b1)) =
             [\<lparr>callSessionID = [], callMethod = ''Fetch.disable'', callParams = None\<rparr>,
              \<lparr>callSessionID = [], callMethod = ''Fetch.enable'', callParams = Some (FetchEnable [])\<rparr>]
       | (Panics, b1) \<Rightarrow> False)
   \<and> FetchEnable [] \<noteq> FetchEnable ''*.js''"
  by (simp add: DisableDomain_def Call_def set_state_def Let_def Delete_def discard_def
        ParseMethodName_def key_def fetchingBrowser_def freshBrowser_def FetchEnable_def succeeding_def
        EmulationClearDeviceMetricsOverride_def EmulationClearGeolocationOverride_def)

section \<open>The page registry\<close>


lemma set_state_cachedPages: "cachedPages (snd (set_state b sid m ps)) = cachedPages b"
  by (auto simp: set_state_def Let_def Delete_def split: option.splits)

lemma Call_cachedPages: "cachedPages (snd (Call cl b sid m ps)) = cachedPages b"
proof (cases "cl (calls b) \<lparr>callSessionID = sid, callMethod = m, callParams = ps\<rparr>")
  case (Inl e)
  then show ?thesis by (simp add: Call_def Let_def)
next
  case (Inr r)
  let ?b1 = "b\<lparr>calls := calls b @ [\<lparr>callSessionID = sid, callMethod = m, callParams = ps\<rparr>]\<rparr>"
  from set_state_cachedPages [of ?b1 sid m ps] Inr show ?thesis
    by (cases "set_state ?b1 sid m ps") (auto simp: Call_def Let_def split: outcome.splits)
qed

lemma discard_snd: "snd (discard r) = snd r"
  by (cases r) (auto simp: discard_def split: outcome.splits)

lemma EnableDomain_cachedPages: "cachedPages (snd (EnableDomain cl b sid req)) = cachedPages b"
proof (cases "states b (key b sid (ProtoReq req)) = None")
  case True
  let ?r = "discard (Call cl b sid (ProtoReq req) (Some req))"
  have "cachedPages (snd ?r) = cachedPages b" by (simp add: discard_snd Call_cachedPages)
  then show ?thesis using True
    by (cases ?r) (auto simp: EnableDomain_def Let_def split: outcome.splits)
next
  case False
  then show ?thesis by (auto simp: EnableDomain_def Let_def)
qed

lemma PageFromTarget_cached:
  "cachedPages b T = Some page \<Longrightarrow> PageFromTarget cl un em b T = (Returns (Inr page), b)"
  by (simp add: PageFromTarget_def loadCachedPage_def)

lemma PageFromTarget_caches:
  assumes "PageFromTarget cl un em b T = (Returns (Inr page), b')"
  shows "cachedPages b' T = Some page"
proof (cases "cachedPages b T")
  case (Some q)
  with assms show ?thesis by (simp add: PageFromTarget_def loadCachedPage_def)
next
  case None
  from assms None have "\<exists>b3 session restore.
      EnableDomain cl (cachePage b3 page
            \<lparr>TargetID = T, SessionID = session, FrameID = T, element = None, jsCtxID = [],
               helpers = None, trace = []\<rparr>) session PageEnable = (Returns restore, b')"
    by (auto simp: PageFromTarget_def loadCachedPage_def Let_def
          split: prod.splits outcome.splits sum.splits option.splits if_splits)
  then obtain b3 session restore where
    "EnableDomain cl (cachePage b3 page
            \<lparr>TargetID = T, SessionID = session, FrameID = T, element = None, jsCtxID = [],
               helpers = None, trace = []\<rparr>) session PageEnable = (Returns restore, b')"
    by blast
  from arg_cong [OF this, of "\<lambda>r. cachedPages (snd r)"]
  have "cachedPages b' = (cachedPages b3)(T \<mapsto> page)"
    by (simp add: EnableDomain_cachedPages cachePage_def)
  then show ?thesis by simp
qed

lemma PageFromTarget_attach_fails:
  assumes "cachedPages b T = None"
    and "cl (calls b) \<lparr>callSessionID = [], callMethod = ''Target.attachToTarget'',
                          callParams = Some (TargetAttachToTarget T)\<rparr> = Inl err"
  shows "PageFromTarget cl un em b T =
           (Returns (Inl err),
            b\<lparr>calls := calls b @ [\<lparr>callSessionID = [], callMethod = ''Target.attachToTarget'',
                                     callParams = Some (TargetAttachToTarget T)\<rparr>]\<rparr>)"
  using assms by (simp add: PageFromTarget_def loadCachedPage_def Call_def Let_def)

lemma EnableDomain_returns:
  assumes "ParseMethodName (ProtoReq req) = Some x"
  shows "\<exists>restore b'. EnableDomain cl b sid req = (Returns restore, b')"
proof (cases "states b (key b sid (ProtoReq req)) = None")
  case True
  obtain b' where "discard (Call cl b sid (ProtoReq req) (Some req)) = (Returns (), b')"
    using discard_Call [OF assms] by blast
  with True show ?thesis by (simp add: EnableDomain_def Let_def)
next
  case False
  then show ?thesis by (auto simp: EnableDomain_def Let_def)
qed

lemma set_state_plain:
  assumes "ParseMethodName m = Some (d, n)" and "n \<noteq> ''disable''"
    and "m \<noteq> EmulationClearDeviceMetricsOverride" and "m \<noteq> EmulationClearGeolocationOverride"
  shows "set_state b sid m ps = (Returns (), b\<lparr>states := (states b)(key b sid m \<mapsto> ps)\<rparr>)"
  using assms by (simp add: set_state_def Let_def)

lemma attach_method:
  "ParseMethodName ''Target.attachToTarget'' = Some (''Target'', ''attachToTarget'')"
  "''Target.attachToTarget'' \<noteq> EmulationClearDeviceMetricsOverride"
  "''Target.attachToTarget'' \<noteq> EmulationClearGeolocationOverride"
  by (simp_all add: ParseMethodName_def EmulationClearDeviceMetricsOverride_def
        EmulationClearGeolocationOverride_def)

lemma PageFromTarget_attaches:
  assumes miss: "cachedPages b T = None"
    and ok: "cl (calls b) \<lparr>callSessionID = [], callMethod = ''Target.attachToTarget'',
                             callParams = Some (TargetAttachToTarget T)\<rparr> = Inr bin"
    and session: "un bin = Inr session"
    and clear: "defaultDeviceIsClear b"
  shows "\<exists>b'. PageFromTarget cl un em b T = (Returns (Inr (length (allocated b))), b')"
proof -
  let ?c = "\<lparr>callSessionID = [], callMethod = ''Target.attachToTarget'',
              callParams = Some (TargetAttachToTarget T)\<rparr>"
  define b1 where "b1 = b\<lparr>calls := calls b @ [?c],
      states := (states b)(key b [] ''Target.attachToTarget'' \<mapsto> Some (TargetAttachToTarget T))\<rparr>"
  have call: "Call cl b [] ''Target.attachToTarget'' (Some (TargetAttachToTarget T)) = (Returns (Inr bin), b1)"
    using ok set_state_plain [OF attach_method(1) _ attach_method(2,3)]
    by (simp add: Call_def Let_def b1_def)
  define page where "page = \<lparr>TargetID = T, SessionID = session, FrameID = T, element = None,
      jsCtxID = [], helpers = None, trace = []\<rparr>"
  define b2 where "b2 = cachePage (b1\<lparr>allocated := allocated b @ [page]\<rparr>) (length (allocated b)) page"
  have "ParseMethodName (ProtoReq PageEnable) = Some (''Page'', ''enable'')"
    by (simp add: PageEnable_def ParseMethodName_def)
  from EnableDomain_returns [OF this] obtain restore b' where
    en: "EnableDomain cl b2 session PageEnable = (Returns restore, b')" by blast
  have "allocated b1 = allocated b" "defaultDeviceIsClear b1" using clear by (simp_all add: b1_def)
  then have "PageFromTarget cl un em b T = (Returns (Inr (length (allocated b))), b')"
    using miss call session en [unfolded b2_def]
    by (simp add: PageFromTarget_def loadCachedPage_def Let_def page_def [symmetric])
  then show ?thesis by blast
qed

text \<open>
  C8: \<open>PageFromTarget\<close> is idempotent per target. A target whose page is cached gets
  that same page, and the browser is left as it is, so no call is issued. A call that
  returns a page has cached it, so that the next call returns it again. When the target
  is not cached and the attach call fails, the error is returned, only the attach call
  has been added, no page has been made and the target is still not cached.
\<close>

theorem PageFromTarget_idempotent:
  "(cachedPages b T = Some page \<longrightarrow> PageFromTarget cl un em b T = (Returns (Inr page), b))
   \<and> (PageFromTarget cl un em b T = (Returns (Inr page), b') \<longrightarrow>
        cachedPages b' T = Some page
      \<and> PageFromTarget cl un em b' T = (Returns (Inr page), b'))
   \<and> (cachedPages b T = None
        \<and> cl (calls b) \<lparr>callSessionID = [], callMethod = ''Target.attachToTarget'',
                             callParams = Some (TargetAttachToTarget T)\<rparr> = Inl err \<longrightarrow>
        fst (PageFromTarget cl un em b T) = Returns (Inl err)
      \<and> cachedPages (snd (PageFromTarget cl un em b T)) T = None
      \<and> allocated (snd (PageFromTarget cl un em b T)) = allocated b
      \<and> calls (snd (PageFromTarget cl un em b T)) =
          calls b @ [\<lparr>callSessionID = [], callMethod = ''Target.attachToTarget'',
                         callParams = Some (TargetAttachToTarget T)\<rparr>])"
  using PageFromTarget_cached [of b T page cl un em]
    PageFromTarget_caches [of cl un em b T page b']
    PageFromTarget_cached [of b' T page cl un em]
    PageFromTarget_attach_fails [of b T cl err un em]
  by simp


theorem PageFromTarget_idempotent_witness:
  "(\<exists>b'. PageFromTarget succeeding readSession noEmulation freshBrowser ''T1'' = (Returns (Inr 0), b')
        \<and> cachedPages b' ''T1'' = Some 0
        \<and> PageFromTarget succeeding readSession noEmulation b' ''T1'' = (Returns (Inr 0), b'))
   \<and> cachedPages freshBrowser ''T1'' = None
   \<and> fst (PageFromTarget failing readSession noEmulation freshBrowser ''T1'') = Returns (Inl (ErrRemote ''closed''))
   \<and> cachedPages (snd (PageFromTarget failing readSession noEmulation freshBrowser ''T1'')) ''T1'' = None"
proof -
  have miss: "cachedPages freshBrowser ''T1'' = None" by (simp add: freshBrowser_def)
  have clear: "defaultDeviceIsClear freshBrowser" by (simp add: freshBrowser_def)
  have none: "allocated freshBrowser = []" by (simp add: freshBrowser_def)
  obtain b' where first:
    "PageFromTarget succeeding readSession noEmulation freshBrowser ''T1'' = (Returns (Inr 0), b')"
    using PageFromTarget_attaches [OF miss _ _ clear, of succeeding "''{}''" readSession "''session-1''" noEmulation]
    by (auto simp: succeeding_def readSession_def none)
  have again: "cachedPages b' ''T1'' = Some 0
        \<and> PageFromTarget succeeding readSession noEmulation b' ''T1'' = (Returns (Inr 0), b')"
    by (rule PageFromTarget_idempotent [where b = freshBrowser and T = "''T1''" and page = 0
          and cl = succeeding and un = readSession and em = noEmulation and b' = b',
          THEN conjunct2, THEN conjunct1, THEN mp, OF first])
  then have hit: "cachedPages b' ''T1'' = Some 0" by simp
  have cached: "PageFromTarget succeeding readSession noEmulation b' ''T1'' = (Returns (Inr 0), b')"
    by (rule PageFromTarget_idempotent [where b = b' and T = "''T1''" and page = 0
          and cl = succeeding and un = readSession and em = noEmulation,
          THEN conjunct1, THEN mp, OF hit])
  have err: "failing (calls freshBrowser) \<lparr>callSessionID = [], callMethod = ''Target.attachToTarget'',
               callParams = Some (TargetAttachToTarget ''T1'')\<rparr> = Inl (ErrRemote ''closed'')"
    by (simp add: failing_def)
  have failed: "fst (PageFromTarget failing readSession noEmulation freshBrowser ''T1'') = Returns (Inl (ErrRemote ''closed''))
        \<and> cachedPages (snd (PageFromTarget failing readSession noEmulation freshBrowser ''T1'')) ''T1'' = None"
    using PageFromTarget_idempotent [where b = freshBrowser and T = "''T1''" and cl = failing
      and un = readSession and em = noEmulation and err = "ErrRemote ''closed''",
      THEN conjunct2, THEN conjunct2, THEN mp, OF conjI [OF miss err]]
    by blast
  from first hit cached miss failed show ?thesis by blast
qed

section \<open>The hijack router: requests that no handler resolves\<close>


lemma walkHandlers_passes:
  assumes "\<forall>h \<in> set hs. \<not> MatchString (regexp h) (pausedURL e)
              \<or> (\<forall>c. continueRequest c = None \<longrightarrow>
                     Skip (handler h c) \<and> continueRequest (handler h c) = None)"
    and "continueRequest ctx = None"
  shows "\<exists>ctx'. walkHandlers cl e hs ctx tr =
           (False, ctx', tr @ map (\<lambda>h. Invoked (pattern h))
                                 (filter (\<lambda>h. MatchString (regexp h) (pausedURL e)) hs))"
  using assms
proof (induction hs arbitrary: ctx tr)
  case Nil
  then show ?case by simp
next
  case (Cons h hs)
  show ?case
  proof (cases "MatchString (regexp h) (pausedURL e)")
    case False
    with Cons show ?thesis by simp
  next
    case True
    with Cons.prems have h: "Skip (handler h ctx)" "continueRequest (handler h ctx) = None" by auto
    from Cons.IH [of "handler h ctx" "tr @ [Invoked (pattern h)]"] Cons.prems(1) h(2)
    obtain ctx' where "walkHandlers cl e hs (handler h ctx) (tr @ [Invoked (pattern h)]) =
        (False, ctx', (tr @ [Invoked (pattern h)]) @ map (\<lambda>h. Invoked (pattern h))
                                 (filter (\<lambda>h. MatchString (regexp h) (pausedURL e)) hs))"
      by auto
    with True h show ?thesis by (simp add: Let_def)
  qed
qed

text \<open>
  C2, as the code has it: when no handler ends the walk (each handler either does not
  match the URL or, given a context without a continue directive, sets \<open>Skip\<close> and
  gives no continue directive), the goroutine only invokes the matching handlers in
  order: it sends nothing to the remote end and never calls \<open>OnError\<close>.
\<close>

theorem unresolved_request_is_silent:
  assumes "\<forall>h \<in> set (handlers r). \<not> MatchString (regexp h) (pausedURL e)
              \<or> (\<forall>c. continueRequest c = None \<longrightarrow>
                     Skip (handler h c) \<and> continueRequest (handler h c) = None)"
  shows "requestPaused cl r e =
           map (\<lambda>h. Invoked (pattern h)) (filter (\<lambda>h. MatchString (regexp h) (pausedURL e)) (handlers r))
         \<and> (\<forall>c. Sent c \<notin> set (requestPaused cl r e))
         \<and> (\<forall>err. OnError err \<notin> set (requestPaused cl r e))"
proof -
  have "continueRequest (new_hijack e) = None" by (simp add: new_hijack_def)
  from walkHandlers_passes [OF assms this, of cl "[]"]
  have "requestPaused cl r e =
           map (\<lambda>h. Invoked (pattern h)) (filter (\<lambda>h. MatchString (regexp h) (pausedURL e)) (handlers r))"
    by (auto simp: requestPaused_def)
  then show ?thesis by auto
qed

lemma Compile_a_star:
  "Compile (PatternToReg ''/a*'') =
     Some [BeginText, One (Lit (CHR ''/'')), One (Lit (CHR ''a'')), Star AnyCharNotNL, EndText]"
  by (simp add: Compile_def PatternToReg_def TrimSpace_def IsSpace_def backslash_def metachars_def
        isOp_def repeat_def Let_def)

lemma skippingRouter_eq:
  "skippingRouter =
     \<lparr>handlers = [\<lparr>pattern = ''/a*'',
                   regexp = [BeginText, One (Lit (CHR ''/'')), One (Lit (CHR ''a'')), Star AnyCharNotNL, EndText],
                   handler = skipping\<rparr>],
      enablePatterns = [(''/a*'', [])]\<rparr>"
  by (simp add: skippingRouter_def Add_def Compile_a_star newHijackRouter_def Let_def)

theorem unresolved_request_is_silent_witness:
  "requestPaused accepting skippingRouter (pausedAt ''/ab'') = [Invoked ''/a*'']
   \<and> (\<forall>c. Sent c \<notin> set (requestPaused accepting skippingRouter (pausedAt ''/ab'')))
   \<and> (\<forall>err. OnError err \<notin> set (requestPaused accepting skippingRouter (pausedAt ''/ab'')))"
proof -
  have h: "\<forall>h \<in> set (handlers skippingRouter). \<not> MatchString (regexp h) (pausedURL (pausedAt ''/ab''))
       \<or> (\<forall>c. continueRequest c = None \<longrightarrow>
              Skip (handler h c) \<and> continueRequest (handler h c) = None)"
    by (simp add: skippingRouter_eq skipping_def)
  have m: "MatchString [BeginText, One (Lit (CHR ''/'')), One (Lit (CHR ''a'')), Star AnyCharNotNL, EndText] ''/ab''"
    by (simp add: MatchString_def atomMatches_def)
  from unresolved_request_is_silent [OF h, of accepting] m show ?thesis
    by (simp add: skippingRouter_eq pausedAt_def)
qed

text \<open>
  C2 as stated fails: on the router whose one handler, for \<open>/a*\<close>, sets \<open>Skip\<close>, a
  request for \<open>/b\<close> matches no handler and a request for \<open>/ab\<close> is skipped by the only
  one; in both cases the trace has no call of \<open>OnError\<close> (and no call to the remote end).
\<close>

theorem unresolved_request_counterexample:
  "requestPaused accepting skippingRouter (pausedAt ''/b'') = []
   \<and> requestPaused accepting skippingRouter (pausedAt ''/ab'') = [Invoked ''/a*'']"
  by (simp add: requestPaused_def skippingRouter_eq pausedAt_def MatchString_def atomMatches_def
        skipping_def new_hijack_def Let_def)

section \<open>The hijack router: the empty pattern\<close>


lemma MatchString_empty: "MatchString [] url"
  by (cases url) (simp_all add: MatchString_def)

lemma PatternToReg_empty: "PatternToReg [] = []"
  by (simp add: PatternToReg_def)

lemma Compile_empty: "Compile [] = Some []"
  by (simp add: Compile_def)

lemma walkHandlers_append:
  "walkHandlers cl e hs0 ctx tr = (False, ctx', tr') \<Longrightarrow>
   walkHandlers cl e (hs0 @ hs1) ctx tr = walkHandlers cl e hs1 ctx' tr'"
proof (induction hs0 arbitrary: ctx tr)
  case Nil
  then show ?case by simp
next
  case (Cons h hs0)
  then show ?case
    by (auto simp: Let_def split: if_splits option.splits)
qed

lemma walkHandlers_extends:
  "\<exists>suffix. snd (snd (walkHandlers cl e hs ctx tr)) = tr @ suffix"
proof (induction hs arbitrary: ctx tr)
  case Nil
  then show ?case by simp
next
  case (Cons h hs)
  note IH = Cons.IH
  show ?case
  proof (cases "MatchString (regexp h) (pausedURL e)")
    case False
    with IH [of ctx tr] show ?thesis by simp
  next
    case True
    let ?ctx1 = "handler h ctx" and ?tr1 = "tr @ [Invoked (pattern h)]"
    from IH [of ?ctx1 ?tr1] obtain s1 where
      s1: "snd (snd (walkHandlers cl e hs ?ctx1 ?tr1)) = ?tr1 @ s1" by blast
    from IH [of ?ctx1 "?tr1 @ [Sent (FetchFulfillRequestCall (payload ?ctx1))]"] obtain s2 where
      s2: "snd (snd (walkHandlers cl e hs ?ctx1 (?tr1 @ [Sent (FetchFulfillRequestCall (payload ?ctx1))]))) =
             (?tr1 @ [Sent (FetchFulfillRequestCall (payload ?ctx1))]) @ s2" by blast
    from True s1 s2 show ?thesis
      by (auto simp: Let_def split: option.splits)
  qed
qed

lemma walkHandlers_reaches:
  assumes "MatchString (regexp h) (pausedURL e)"
  shows "\<exists>suffix. snd (snd (walkHandlers cl e (h # hs) ctx tr)) = tr @ Invoked (pattern h) # suffix"
proof -
  let ?ctx1 = "handler h ctx" and ?tr1 = "tr @ [Invoked (pattern h)]"
  from walkHandlers_extends [of cl e hs ?ctx1 ?tr1] obtain s1 where
    s1: "snd (snd (walkHandlers cl e hs ?ctx1 ?tr1)) = ?tr1 @ s1" by blast
  from walkHandlers_extends [of cl e hs ?ctx1 "?tr1 @ [Sent (FetchFulfillRequestCall (payload ?ctx1))]"]
  obtain s2 where
    s2: "snd (snd (walkHandlers cl e hs ?ctx1 (?tr1 @ [Sent (FetchFulfillRequestCall (payload ?ctx1))]))) =
           (?tr1 @ [Sent (FetchFulfillRequestCall (payload ?ctx1))]) @ s2" by blast
  from assms s1 s2 show ?thesis
    by (auto simp: Let_def split: option.splits)
qed

lemma Add_empty:
  "Add cl r [] rt h =
     Some (cl [] (FetchEnableCall (enablePatterns r @ [([], rt)])),
           r\<lparr>enablePatterns := enablePatterns r @ [([], rt)],
             handlers := handlers r @ [\<lparr>pattern = [], regexp = [], handler = h\<rparr>]\<rparr>)"
  by (simp add: Add_def PatternToReg_def Compile_empty Let_def)

text \<open>
  C9, as the code has it: \<open>PatternToReg\<close> maps the empty pattern to the empty
  expression, which compiles and matches every URL. \<open>Add\<close> with the empty pattern
  appends a handler with that expression, and a paused request whose walk runs through
  the handlers registered before without returning invokes the new handler next.
\<close>

theorem empty_pattern_handler:
  "PatternToReg [] = []
   \<and> Compile (PatternToReg []) = Some []
   \<and> (\<forall>url. MatchString [] url)
   \<and> (\<exists>err r'. Add cl r [] rt h = Some (err, r')
         \<and> handlers r' = handlers r @ [\<lparr>pattern = [], regexp = [], handler = h\<rparr>]
         \<and> (walkHandlers cl e (handlers r) (new_hijack e) [] = (False, ctx, tr) \<longrightarrow>
              (\<exists>suffix. requestPaused cl r' e = tr @ Invoked [] # suffix)))"
proof (intro conjI allI)
  show "PatternToReg [] = []" by (simp add: PatternToReg_def)
  then show "Compile (PatternToReg []) = Some []" by (simp add: Compile_empty)
  show "MatchString [] url" for url by (rule MatchString_empty)
  let ?h = "\<lparr>pattern = [], regexp = [], handler = h\<rparr>"
  let ?r' = "r\<lparr>enablePatterns := enablePatterns r @ [([], rt)], handlers := handlers r @ [?h]\<rparr>"
  have "\<exists>suffix. requestPaused cl ?r' e = tr @ Invoked [] # suffix"
    if "walkHandlers cl e (handlers r) (new_hijack e) [] = (False, ctx, tr)"
  proof -
    have "MatchString (regexp ?h) (pausedURL e)" by (simp add: MatchString_empty)
    from walkHandlers_reaches [OF this, of cl "[]" ctx tr] walkHandlers_append [OF that, of "[?h]"]
    show ?thesis by (simp add: requestPaused_def)
  qed
  then show "\<exists>err r'. Add cl r [] rt h = Some (err, r')
         \<and> handlers r' = handlers r @ [?h]
         \<and> (walkHandlers cl e (handlers r) (new_hijack e) [] = (False, ctx, tr) \<longrightarrow>
              (\<exists>suffix. requestPaused cl r' e = tr @ Invoked [] # suffix))"
    by (simp add: Add_empty)
qed

lemma shadowedRouter_eq:
  "shadowedRouter =
     \<lparr>handlers = [\<lparr>pattern = ''/a*'',
                   regexp = [BeginText, One (Lit (CHR ''/'')), One (Lit (CHR ''a'')), Star AnyCharNotNL, EndText],
                   handler = continuing\<rparr>,
                 \<lparr>pattern = [], regexp = [], handler = skipping\<rparr>],
      enablePatterns = [(''/a*'', []), ([], [])]\<rparr>"
  by (simp add: shadowedRouter_def Add_def Compile_a_star Compile_empty PatternToReg_empty
        newHijackRouter_def Let_def)

theorem empty_pattern_handler_witness:
  "walkHandlers accepting (pausedAt ''/ab'') (handlers skippingRouter) (new_hijack (pausedAt ''/ab'')) [] =
     (False, skipping (new_hijack (pausedAt ''/ab'')), [Invoked ''/a*''])
   \<and> (\<exists>err r'. Add accepting skippingRouter [] [] continuing = Some (err, r')
         \<and> (\<exists>suffix. requestPaused accepting r' (pausedAt ''/ab'') = [Invoked ''/a*''] @ Invoked [] # suffix))"
proof -
  have w: "walkHandlers accepting (pausedAt ''/ab'') (handlers skippingRouter) (new_hijack (pausedAt ''/ab'')) [] =
     (False, skipping (new_hijack (pausedAt ''/ab'')), [Invoked ''/a*''])"
    by (simp add: skippingRouter_eq pausedAt_def MatchString_def atomMatches_def Let_def)
       (simp add: skipping_def new_hijack_def)
  from empty_pattern_handler [of accepting skippingRouter "[]" continuing "pausedAt ''/ab''"
      "skipping (new_hijack (pausedAt ''/ab''))" "[Invoked ''/a*'']"] w
  show ?thesis by auto
qed

text \<open>
  C9 as stated fails in its last part: with a handler for \<open>/a*\<close> that continues the
  request registered first, a request for \<open>/ab\<close> is continued by it and the goroutine
  returns; the handler of the empty pattern is not invoked.
\<close>

theorem empty_pattern_handler_counterexample:
  "requestPaused accepting shadowedRouter (pausedAt ''/ab'') =
     [Invoked ''/a*'', Sent (FetchContinueRequestCall \<lparr>continueRequestID = ''1'', continueFields = []\<rparr>)]"
  by (simp add: requestPaused_def shadowedRouter_eq pausedAt_def MatchString_def atomMatches_def
        continuing_def new_hijack_def accepting_def Let_def)

section \<open>The retry loop of \<open>Page.Evaluate\<close>\<close>


lemma Evaluate_loop_diverges:
  assumes nothis: "ThisObj opts = None"
    and start: "I p"
    and stale: "\<forall>q. I q \<longrightarrow>
        (\<exists>q1. evaluate rm fns q opts = (Returns (Inl ErrCtxNotFound), q1)
            \<and> I (unsetJSCtxID q1)
            \<and> (\<forall>n. I (unsetJSCtxID (q1\<lparr>trace := trace q1 @ [Slept n]\<rparr>))))"
  shows "Evaluate_loop rm fns opts backoff p = None"
proof (rule ccontr)
  assume "Evaluate_loop rm fns opts backoff p \<noteq> None"
  then obtain y where y: "Evaluate_loop rm fns opts backoff p = Some y" by blast
  let ?stuck = "\<lambda>rm fns opts p. ThisObj opts = None \<and> I p
          \<and> (\<forall>q. I q \<longrightarrow>
                (\<exists>q1. evaluate rm fns q opts = (Returns (Inl ErrCtxNotFound), q1)
                    \<and> I (unsetJSCtxID q1)
                    \<and> (\<forall>n. I (unsetJSCtxID (q1\<lparr>trace := trace q1 @ [Slept n]\<rparr>)))))"
  have "\<not> ?stuck rm fns opts p"
  proof (rule Evaluate_loop.raw_induct
      [where P = "\<lambda>rm fns opts backoff p y. \<not> ?stuck rm fns opts p", OF _ y])
    fix loop rm fns opts backoff p y
    assume ih: "\<And>rm fns opts backoff p y. loop rm fns opts backoff p = Some y \<Longrightarrow> \<not> ?stuck rm fns opts p"
      and eq: "(case evaluate rm fns p opts of
        (Returns (Inl err), p1) \<Rightarrow>
          if err = ErrCtxNotFound
          then case ThisObj opts of
               None \<Rightarrow>
                 (case backoff of
                    None \<Rightarrow> loop rm fns opts (Some 0) (unsetJSCtxID p1)
                  | Some n \<Rightarrow>
                      loop rm fns opts (Some (Suc n))
                        (unsetJSCtxID (p1\<lparr>trace := trace p1 @ [Slept n]\<rparr>)))
             | Some this \<Rightarrow> Some (Returns (Inl (ErrObjectNotFound this)), p1)
          else Some (Returns (Inl err), p1)
        | (Returns (Inr res), p1) \<Rightarrow> Some (Returns (Inr res), p1)
        | (Panics, p1) \<Rightarrow> Some (Panics, p1)) = Some y"
    show "\<not> ?stuck rm fns opts p"
    proof
      assume a: "?stuck rm fns opts p"
      then obtain p1 where p1: "evaluate rm fns p opts = (Returns (Inl ErrCtxNotFound), p1)"
        and keep: "I (unsetJSCtxID p1)" "\<And>n. I (unsetJSCtxID (p1\<lparr>trace := trace p1 @ [Slept n]\<rparr>))"
        by blast
      show False
      proof (cases backoff)
        case None
        with eq a p1 have "loop rm fns opts (Some 0) (unsetJSCtxID p1) = Some y" by simp
        from ih [OF this] a keep(1) show False by blast
      next
        case (Some n)
        with eq a p1
        have "loop rm fns opts (Some (Suc n)) (unsetJSCtxID (p1\<lparr>trace := trace p1 @ [Slept n]\<rparr>)) = Some y"
          by simp
        from ih [OF this] a keep(2) [of n] show False by blast
      qed
    qed
  qed
  with nothis start stale show False by blast
qed

lemma evaluate_alwaysStale:
  "\<exists>p1. evaluate alwaysStale fns p plainEval = (Returns (Inl ErrCtxNotFound), p1)"
  by (cases "element p")
     (auto simp: evaluate_def plainEval_def getJSCtxID_def IsIframe_def callRemote_def alwaysStale_def)

text \<open>
  C6, as the code has it: the loop of \<open>Evaluate\<close> has no bound. Let there be no
  \<open>ThisObj\<close>, and let the inner evaluation keep failing with the context-not-found
  error: it does so on the page \<open>Evaluate\<close> starts from and on every page that the
  loop goes on with after such a failure (\<open>I\<close> holds of these pages). Then
  \<open>Evaluate\<close> never returns.
\<close>

theorem Evaluate_retries_without_bound:
  assumes "ThisObj opts = None"
    and "I p"
    and "\<forall>q. I q \<longrightarrow>
        (\<exists>q1. evaluate rm fns q opts = (Returns (Inl ErrCtxNotFound), q1)
            \<and> I (unsetJSCtxID q1)
            \<and> (\<forall>n. I (unsetJSCtxID (q1\<lparr>trace := trace q1 @ [Slept n]\<rparr>))))"
  shows "Evaluate rm fns opts p = None"
  unfolding Evaluate_def using assms by (rule Evaluate_loop_diverges)

theorem Evaluate_retries_without_bound_witness:
  "Evaluate alwaysStale noFunctions plainEval framePage = None"
proof -
  have "ThisObj plainEval = None" by (simp add: plainEval_def)
  moreover have "(\<lambda>q. True) framePage" by simp
  moreover have "\<forall>q. (\<lambda>q. True) q \<longrightarrow>
        (\<exists>q1. evaluate alwaysStale noFunctions q plainEval = (Returns (Inl ErrCtxNotFound), q1)
            \<and> (\<lambda>q. True) (unsetJSCtxID q1)
            \<and> (\<forall>n. (\<lambda>q. True) (unsetJSCtxID (q1\<lparr>trace := trace q1 @ [Slept n]\<rparr>))))"
    using evaluate_alwaysStale by simp
  ultimately show ?thesis by (rule Evaluate_retries_without_bound)
qed

text \<open>
  C6 as stated fails: on a top-level page whose every call answers that the context is
  not found, \<open>Evaluate\<close> without \<open>ThisObj\<close> never returns an error to its caller: it
  does not return at all.
\<close>

theorem Evaluate_bounded_counterexample:
  "Evaluate alwaysStale noFunctions plainEval topPage = None"
proof -
  have "ThisObj plainEval = None" by (simp add: plainEval_def)
  moreover have "(\<lambda>q. True) topPage" by simp
  moreover have "\<forall>q. (\<lambda>q. True) q \<longrightarrow>
        (\<exists>q1. evaluate alwaysStale noFunctions q plainEval = (Returns (Inl ErrCtxNotFound), q1)
            \<and> (\<lambda>q. True) (unsetJSCtxID q1)
            \<and> (\<forall>n. (\<lambda>q. True) (unsetJSCtxID (q1\<lparr>trace := trace q1 @ [Slept n]\<rparr>))))"
    using evaluate_alwaysStale by simp
  ultimately show ?thesis unfolding Evaluate_def by (rule Evaluate_loop_diverges)
qed


text \<open>
  C5, as the code has it. When the inner evaluation fails with the context-not-found
  error: with a \<open>ThisObj\<close>, \<open>Evaluate\<close> returns \<open>ErrObjectNotFound\<close> for it at once, on
  the page as the one attempt left it; without a \<open>ThisObj\<close>, the first failure only
  creates the sleeper, clears the cached context id and retries (no sleep), and every
  later failure takes one sleep of the sleeper, clears the id and retries. Any other
  error of the inner evaluation is returned as it is, on the page as the attempt left it.
\<close>

theorem Evaluate_on_stale_context:
  "(evaluate rm fns p opts = (Returns (Inl ErrCtxNotFound), p1) \<and> ThisObj opts = Some this \<longrightarrow>
      Evaluate rm fns opts p = Some (Returns (Inl (ErrObjectNotFound this)), p1))
   \<and> (evaluate rm fns p opts = (Returns (Inl ErrCtxNotFound), p1) \<and> ThisObj opts = None \<longrightarrow>
      Evaluate rm fns opts p = Evaluate_loop rm fns opts (Some 0) (unsetJSCtxID p1)
      \<and> jsCtxID (unsetJSCtxID p1) = [] \<and> trace (unsetJSCtxID p1) = trace p1)
   \<and> (evaluate rm fns p opts = (Returns (Inl ErrCtxNotFound), p1) \<and> ThisObj opts = None \<longrightarrow>
      Evaluate_loop rm fns opts (Some n) p =
        Evaluate_loop rm fns opts (Some (Suc n)) (unsetJSCtxID (p1\<lparr>trace := trace p1 @ [Slept n]\<rparr>)))
   \<and> (evaluate rm fns p opts = (Returns (Inl err), p1) \<and> err \<noteq> ErrCtxNotFound \<longrightarrow>
      Evaluate rm fns opts p = Some (Returns (Inl err), p1)
      \<and> Evaluate_loop rm fns opts (Some n) p = Some (Returns (Inl err), p1))"
proof (intro conjI impI)
  assume "evaluate rm fns p opts = (Returns (Inl ErrCtxNotFound), p1) \<and> ThisObj opts = Some this"
  then show "Evaluate rm fns opts p = Some (Returns (Inl (ErrObjectNotFound this)), p1)"
    by (simp add: Evaluate_def Evaluate_loop.simps)
next
  assume a: "evaluate rm fns p opts = (Returns (Inl ErrCtxNotFound), p1) \<and> ThisObj opts = None"
  show "Evaluate rm fns opts p = Evaluate_loop rm fns opts (Some 0) (unsetJSCtxID p1)"
    unfolding Evaluate_def by (subst Evaluate_loop.simps) (simp add: a)
  show "jsCtxID (unsetJSCtxID p1) = []" "trace (unsetJSCtxID p1) = trace p1"
    by (simp_all add: unsetJSCtxID_def)
  show "Evaluate_loop rm fns opts (Some n) p =
        Evaluate_loop rm fns opts (Some (Suc n)) (unsetJSCtxID (p1\<lparr>trace := trace p1 @ [Slept n]\<rparr>))"
    by (subst Evaluate_loop.simps) (simp add: a)
next
  assume b: "evaluate rm fns p opts = (Returns (Inl err), p1) \<and> err \<noteq> ErrCtxNotFound"
  show "Evaluate rm fns opts p = Some (Returns (Inl err), p1)"
    unfolding Evaluate_def by (subst Evaluate_loop.simps) (simp add: b)
  show "Evaluate_loop rm fns opts (Some n) p = Some (Returns (Inl err), p1)"
    by (subst Evaluate_loop.simps) (simp add: b)
qed

lemma evaluate_staleOnce_first:
  "evaluate staleOnce noFunctions topPage plainEval =
     (Returns (Inl ErrCtxNotFound), topPage\<lparr>trace := [Called (functionCallOn ''ctx-1'')]\<rparr>)"
  by (simp add: evaluate_def plainEval_def getJSCtxID_def topPage_def callRemote_def staleOnce_def
        functionCallOn_def)

lemma evaluate_staleOnce_second:
  "evaluate staleOnce noFunctions (unsetJSCtxID (topPage\<lparr>trace := [Called (functionCallOn ''ctx-1'')]\<rparr>)) plainEval =
     (Returns (Inr \<lparr>ObjectID = ''result'', Description = []\<rparr>),
      topPage\<lparr>jsCtxID := ''ctx-2'', helpers := None,
        trace := [Called (functionCallOn ''ctx-1''), Called (RuntimeEvaluateCall ''window''),
                  Called (functionCallOn ''ctx-2'')]\<rparr>)"
  by (simp add: evaluate_def plainEval_def getJSCtxID_def topPage_def callRemote_def staleOnce_def
        functionCallOn_def unsetJSCtxID_def IsIframe_def object_def isFunctionCall_def)

lemma Evaluate_staleOnce:
  "Evaluate staleOnce noFunctions plainEval topPage =
     Some (Returns (Inr \<lparr>ObjectID = ''result'', Description = []\<rparr>),
           topPage\<lparr>jsCtxID := ''ctx-2'', helpers := None,
             trace := [Called (functionCallOn ''ctx-1''), Called (RuntimeEvaluateCall ''window''),
                       Called (functionCallOn ''ctx-2'')]\<rparr>)"
proof -
  have n: "ThisObj plainEval = None" by (simp add: plainEval_def)
  have "Evaluate staleOnce noFunctions plainEval topPage =
          Evaluate_loop staleOnce noFunctions plainEval (Some 0)
            (unsetJSCtxID (topPage\<lparr>trace := [Called (functionCallOn ''ctx-1'')]\<rparr>))"
    unfolding Evaluate_def
    by (subst Evaluate_loop.simps) (simp add: evaluate_staleOnce_first n)
  also have "\<dots> = Some (Returns (Inr \<lparr>ObjectID = ''result'', Description = []\<rparr>),
           topPage\<lparr>jsCtxID := ''ctx-2'', helpers := None,
             trace := [Called (functionCallOn ''ctx-1''), Called (RuntimeEvaluateCall ''window''),
                       Called (functionCallOn ''ctx-2'')]\<rparr>)"
    by (subst Evaluate_loop.simps) (simp add: evaluate_staleOnce_second)
  finally show ?thesis .
qed

lemma evaluate_thisEval:
  "evaluate alwaysStale noFunctions topPage thisEval =
     (Returns (Inl ErrCtxNotFound),
      topPage\<lparr>trace := [Called (functionCallOn ''element-1'')]\<rparr>)"
  by (simp add: evaluate_def thisEval_def plainEval_def topPage_def callRemote_def alwaysStale_def
        functionCallOn_def element1_def formatToJSFunc_def)

lemma evaluate_closedRemote:
  "evaluate closedRemote noFunctions topPage plainEval =
     (Returns (Inl (ErrRemote ''closed'')), topPage\<lparr>trace := [Called (functionCallOn ''ctx-1'')]\<rparr>)"
  by (simp add: evaluate_def plainEval_def getJSCtxID_def topPage_def callRemote_def closedRemote_def
        functionCallOn_def)

theorem Evaluate_on_stale_context_witness:
  "Evaluate alwaysStale noFunctions thisEval topPage =
     Some (Returns (Inl (ErrObjectNotFound element1)),
           topPage\<lparr>trace := [Called (functionCallOn ''element-1'')]\<rparr>)
   \<and> Evaluate staleOnce noFunctions plainEval topPage =
       Evaluate_loop staleOnce noFunctions plainEval (Some 0)
         (unsetJSCtxID (topPage\<lparr>trace := [Called (functionCallOn ''ctx-1'')]\<rparr>))
   \<and> Evaluate_loop staleOnce noFunctions plainEval (Some 2) topPage =
       Evaluate_loop staleOnce noFunctions plainEval (Some 3)
         (unsetJSCtxID (topPage\<lparr>trace := [Called (functionCallOn ''ctx-1''), Slept 2]\<rparr>))
   \<and> Evaluate closedRemote noFunctions plainEval topPage =
       Some (Returns (Inl (ErrRemote ''closed'')), topPage\<lparr>trace := [Called (functionCallOn ''ctx-1'')]\<rparr>)"
proof -
  have t: "ThisObj thisEval = Some element1" and n: "ThisObj plainEval = None"
    by (simp_all add: thisEval_def plainEval_def)
  note a = Evaluate_on_stale_context [of alwaysStale noFunctions topPage thisEval _ element1,
      THEN conjunct1, THEN mp, OF conjI [OF evaluate_thisEval t]]
  note b = Evaluate_on_stale_context [of staleOnce noFunctions topPage plainEval,
      THEN conjunct2, THEN conjunct1, THEN mp, OF conjI [OF evaluate_staleOnce_first n]]
  note c = Evaluate_on_stale_context [of staleOnce noFunctions topPage plainEval _ _ 2,
      THEN conjunct2, THEN conjunct2, THEN conjunct1, THEN mp, OF conjI [OF evaluate_staleOnce_first n]]
  have "ErrRemote ''closed'' \<noteq> ErrCtxNotFound" by simp
  note d = Evaluate_on_stale_context [of closedRemote noFunctions topPage plainEval _ _ _ "ErrRemote ''closed''",
      THEN conjunct2, THEN conjunct2, THEN conjunct2, THEN mp, OF conjI [OF evaluate_closedRemote this]]
  from a b c d show ?thesis by (simp add: eval_nat_numeral)
qed

text \<open>
  C5 as stated fails: on a top-level page whose first function call finds no context,
  \<open>Evaluate\<close> clears the context id, resolves the window again and repeats the call,
  which answers. The trace holds the three calls and no sleep: the first retry does not
  wait.
\<close>

theorem Evaluate_first_retry_counterexample:
  "Evaluate staleOnce noFunctions plainEval topPage =
     Some (Returns (Inr \<lparr>ObjectID = ''result'', Description = []\<rparr>),
           topPage\<lparr>jsCtxID := ''ctx-2'', helpers := None,
             trace := [Called (functionCallOn ''ctx-1''), Called (RuntimeEvaluateCall ''window''),
                       Called (functionCallOn ''ctx-2'')]\<rparr>)"
  by (rule Evaluate_staleOnce)

section \<open>Resolving the execution context again\<close>


lemma getJSCtxID_frame:
  "getJSCtxID (resolving ctx) (unsetJSCtxID framePage) =
     (Returns (Inr ctx),
      framePage\<lparr>jsCtxID := ctx,
        trace := [Called (DOMDescribeNodeCall ''iframe-1'' 1 True), Called (DOMResolveNodeCall 7),
                  Called (plainCall ''document'' ''() => window'' [])]\<rparr>)"
  by (simp add: getJSCtxID_def unsetJSCtxID_def framePage_def topPage_def IsIframe_def callRemote_def
        resolving_def object_def jsCtxIDByObjectID_def plainCall_def fun_upd_idem)

lemma getJSCtxID_top:
  "getJSCtxID (resolving ctx) (unsetJSCtxID topPage) =
     (Returns (Inr ctx),
      topPage\<lparr>jsCtxID := ctx, helpers := None, trace := [Called (RuntimeEvaluateCall ''window'')]\<rparr>)"
  by (simp add: getJSCtxID_def unsetJSCtxID_def topPage_def IsIframe_def callRemote_def
        resolving_def object_def)

text \<open>
  C1 on the code. An iframe page has the helper \<open>fn-1\<close> cached under its context
  \<open>ctx-1\<close>; the context is cleared and resolved again. On the iframe path the entry
  of \<open>ctx-1\<close> is still in the cache after the resolution to \<open>ctx-2\<close> (the \<open>delete\<close>
  runs on the cleared id, the empty string), and when the remote end names the new
  context \<open>ctx-1\<close> again, \<open>getHelper\<close> returns the old \<open>fn-1\<close> under it. On the
  top-level path the same page state loses its helpers.
\<close>

theorem iframe_resolution_keeps_helpers:
  "(case getJSCtxID (resolving ''ctx-2'') (unsetJSCtxID framePage) of
      (r, p) \<Rightarrow> r = Returns (Inr ''ctx-2'') \<and> jsCtxID p = ''ctx-2''
                \<and> fst (getHelper p ''ctx-1'' ''functions'') = Some ''fn-1'')
   \<and> (case getJSCtxID (resolving ''ctx-1'') (unsetJSCtxID framePage) of
        (r, p) \<Rightarrow> r = Returns (Inr ''ctx-1'')
                  \<and> fst (getHelper p (jsCtxID p) ''functions'') = Some ''fn-1'')
   \<and> (case getJSCtxID (resolving ''ctx-1'') (unsetJSCtxID topPage) of
        (r, p) \<Rightarrow> r = Returns (Inr ''ctx-1'') \<and> helpers p = None
                  \<and> fst (getHelper p (jsCtxID p) ''functions'') = None)"
  by (simp add: getJSCtxID_frame getJSCtxID_top)
     (simp add: getHelper_def framePage_def topPage_def)

section \<open>URL patterns as regular expressions\<close>

































end
